theory Spec2Isabelle
  imports Complex_Main "HOL-Library.Multiset" "HOL-Library.Char_ord" "HOL-Library.List_Lexorder"
    "HOL-Library.Log_Nat"
begin

section \<open>JavaScript values used by the analytics code\<close>

text \<open>
  Strings are lists of 8-bit code units (enough for the ASCII keys, verdicts and contest
  names the code handles). Integral JavaScript numbers are \<^typ>\<open>int\<close> or \<^typ>\<open>nat\<close>;
  a field that may be missing in the upstream JSON is an \<^typ>\<open>'a option\<close>.
\<close>

definition truthy_or :: "string option \<Rightarrow> string \<Rightarrow> string" where
  \<comment> \<open>\<^verbatim>\<open>x || d\<close> on a string that may be missing: \<^verbatim>\<open>undefined\<close> and \<^verbatim>\<open>""\<close> are falsy.\<close>
  "truthy_or x d = (case x of None \<Rightarrow> d | Some s \<Rightarrow> if s = [] then d else s)"

definition digit_char :: "nat \<Rightarrow> char" where
  "digit_char d = ''0123456789'' ! d"

fun string_of_nat :: "nat \<Rightarrow> string" where
  "string_of_nat n =
     (if n < 10 then [digit_char n] else string_of_nat (n div 10) @ [digit_char (n mod 10)])"

declare string_of_nat.simps [simp del]

definition string_of_int :: "int \<Rightarrow> string" where
  \<comment> \<open>\<^verbatim>\<open>String(n)\<close> for an integral number.\<close>
  "string_of_int i = (if i < 0 then CHR ''-'' # string_of_nat (nat (- i)) else string_of_nat (nat i))"

definition template_int :: "int option \<Rightarrow> string" where
  \<comment> \<open>A number inside a template literal; a missing field prints as \<^verbatim>\<open>undefined\<close>.\<close>
  "template_int x = (case x of None \<Rightarrow> ''undefined'' | Some i \<Rightarrow> string_of_int i)"

subsection \<open>Non-integral numbers\<close>

text \<open>
  A JavaScript number is an IEEE 754 binary64 value. Integers below \<open>2^53\<close> in magnitude
  are exact, and so are their sums and differences; a product with \<^verbatim>\<open>0.9\<close> or a quotient
  is the exact rational result rounded to the nearest binary64 value, ties to the even
  significand. \<open>fl\<close> is that rounding on the normal range (the magnitudes that occur here
  are far from overflow and from the subnormal numbers).
\<close>

definition binexp :: "rat \<Rightarrow> int" where
  \<comment> \<open>The binary exponent \<open>e\<close> of a non-zero number: \<open>2^e \<le> |x| < 2^(e+1)\<close>.\<close>
  "binexp x =
     (case quotient_of \<bar>x\<bar> of (p, q) \<Rightarrow>
        let e = bitlen p - bitlen q in if 2 powi e \<le> \<bar>x\<bar> then e else e - 1)"

definition round_half_even :: "rat \<Rightarrow> int" where
  "round_half_even q =
     (let f = \<lfloor>q\<rfloor>; r = q - of_int f
      in if r < 1 / 2 then f else if 1 / 2 < r then f + 1 else if even f then f else f + 1)"

definition fl :: "rat \<Rightarrow> rat" where
  \<comment> \<open>Round to 53 significant bits.\<close>
  "fl x = (if x = 0 then 0
           else let u = 2 powi (binexp x - 52) in of_int (round_half_even (x / u)) * u)"

definition Math_round :: "rat \<Rightarrow> int" where
  \<comment> \<open>\<^verbatim>\<open>Math.round\<close>: the nearest integer, a tie going towards plus infinity.\<close>
  "Math_round x = \<lfloor>x + 1 / 2\<rfloor>"

section \<open>Upstream entities\<close>

record problem =
  contestId :: "int option"
  index :: string
  rating :: "int option"

record submission =
  creationTimeSeconds :: int
  verdict :: "string option"
  programmingLanguage :: "string option"
  problem :: problem

record contest =
  name :: string
  phase :: string
  startTimeSeconds :: int
  durationSeconds :: int

record RatingEntry =
  contestName :: string
  contestId :: int
  ratingUpdateTimeSeconds :: int
  rank :: int
  oldRating :: int
  newRating :: int

section \<open>Submission overview (\<^verbatim>\<open>fetchSubmissionOverview\<close>)\<close>

record SubmissionStats =
  total :: nat
  verdictCounts :: "(string \<times> nat) list"
  languages :: "(string \<times> nat) list"
  accepted :: nat

fun incr :: "string \<Rightarrow> (string \<times> nat) list \<Rightarrow> (string \<times> nat) list" where
  \<comment> \<open>\<^verbatim>\<open>counts[k] = (counts[k] || 0) + 1\<close>; a new key is appended (first-seen order).\<close>
  "incr k [] = [(k, 1)]"
| "incr k ((k', n) # kvs) = (if k = k' then (k', n + 1) # kvs else (k', n) # incr k kvs)"

definition overview_step ::
  "submission \<Rightarrow> (string \<times> nat) list \<times> (string \<times> nat) list \<times> nat
     \<Rightarrow> (string \<times> nat) list \<times> (string \<times> nat) list \<times> nat" where
  "overview_step s st =
     (case st of (vc, ls, acc) \<Rightarrow>
        let v = truthy_or (verdict s) ''UNKNOWN'';
            lang = truthy_or (programmingLanguage s) ''Unknown''
        in (incr v vc, incr lang ls, if v = ''OK'' then acc + 1 else acc))"

definition fetchSubmissionOverview :: "submission list \<Rightarrow> SubmissionStats" where
  \<comment> \<open>The argument is the list the typed client returned for \<^verbatim>\<open>user.status\<close>.\<close>
  "fetchSubmissionOverview subs =
     (case fold overview_step subs ([], [], 0) of (vc, ls, acc) \<Rightarrow>
        \<lparr>SubmissionStats.total = length subs, verdictCounts = vc, languages = ls, accepted = acc\<rparr>)"

section \<open>Difficulty histogram (\<^verbatim>\<open>fetchProblemDifficulty\<close>)\<close>

record bucket_counts =
  lt1100 :: nat
  b1100_1399 :: nat
  b1400_1699 :: nat
  b1700_1999 :: nat
  ge2000 :: nat

record ProblemDifficulty =
  totalSolved :: nat
  highestSolvedRating :: "int option"
  buckets :: bucket_counts

definition problem_key :: "problem \<Rightarrow> string" where
  "problem_key p = template_int (problem.contestId p) @ ''-'' @ index p"

definition mark_solved :: "submission \<Rightarrow> (string \<rightharpoonup> bool) \<Rightarrow> (string \<rightharpoonup> bool)" where
  \<comment> \<open>Body of the first loop.\<close>
  "mark_solved s solved =
     (if verdict s = Some ''OK'' then solved(problem_key (problem s) \<mapsto> True) else solved)"

definition bucket_rating :: "int \<Rightarrow> bucket_counts \<Rightarrow> bucket_counts" where
  "bucket_rating r b =
     (if r < 1100 then b\<lparr>lt1100 := lt1100 b + 1\<rparr>
      else if r < 1400 then b\<lparr>b1100_1399 := b1100_1399 b + 1\<rparr>
      else if r < 1700 then b\<lparr>b1400_1699 := b1400_1699 b + 1\<rparr>
      else if r < 2000 then b\<lparr>b1700_1999 := b1700_1999 b + 1\<rparr>
      else b\<lparr>ge2000 := ge2000 b + 1\<rparr>)"

definition count_solved ::
  "(string \<rightharpoonup> bool) \<Rightarrow> submission \<Rightarrow> ProblemDifficulty \<Rightarrow> ProblemDifficulty" where
  \<comment> \<open>Body of the second loop; \<^verbatim>\<open>continue\<close> leaves the accumulators as they are.\<close>
  "count_solved solved s d =
     (if solved (problem_key (problem s)) \<noteq> Some True \<or> verdict s \<noteq> Some ''OK'' then d
      else
        let d1 = d\<lparr>totalSolved := totalSolved d + 1\<rparr>
        in case problem.rating (problem s) of
             None \<Rightarrow> d1
           | Some r \<Rightarrow>
               d1\<lparr>highestSolvedRating :=
                     Some (max (case highestSolvedRating d1 of None \<Rightarrow> r | Some h \<Rightarrow> h) r),
                   buckets := bucket_rating r (buckets d1)\<rparr>)"

definition no_buckets :: bucket_counts where
  "no_buckets = \<lparr>lt1100 = 0, b1100_1399 = 0, b1400_1699 = 0, b1700_1999 = 0, ge2000 = 0\<rparr>"

definition fetchProblemDifficulty :: "submission list \<Rightarrow> ProblemDifficulty" where
  \<comment> \<open>The argument is the list the typed client returned for \<^verbatim>\<open>user.status\<close>.\<close>
  "fetchProblemDifficulty subs =
     (let solved = fold mark_solved subs Map.empty
      in fold (count_solved solved) subs
           \<lparr>totalSolved = 0, highestSolvedRating = None, buckets = no_buckets\<rparr>)"

section \<open>Upcoming contests (\<^verbatim>\<open>fetchUpcomingContests\<close>)\<close>

record ContestEntry =
  name :: string
  division :: "string option"
  startTimeSeconds :: int
  durationSeconds :: int

definition is_digit :: "char \<Rightarrow> bool" where
  "is_digit c = (c \<in> set ''0123456789'')"

definition is_space :: "char \<Rightarrow> bool" where
  \<comment> \<open>The code units below 256 that \<^verbatim>\<open>\s\<close> matches.\<close>
  "is_space c = (of_char c \<in> {9, 10, 11, 12, 13, 32, 160 :: nat})"

fun match_digit :: "string \<Rightarrow> char option" where
  \<comment> \<open>\<^verbatim>\<open>\s*(\d)\<close> at the head of the string.\<close>
  "match_digit [] = None"
| "match_digit (c # cs) =
     (if is_space c then match_digit cs else if is_digit c then Some c else None)"

fun match_div :: "string \<Rightarrow> char option" where
  \<comment> \<open>\<^verbatim>\<open>/Div\.?\s*(\d)/i\<close> anchored at the head of the string; the result is group 1.\<close>
  "match_div (d # i # v # cs) =
     (if d \<in> set ''dD'' \<and> i \<in> set ''iI'' \<and> v \<in> set ''vV''
      then (case cs of
              c # cs' \<Rightarrow> if c = CHR ''.'' then match_digit cs' else match_digit cs
            | [] \<Rightarrow> None)
      else None)"
| "match_div _ = None"

fun extractDivision :: "string \<Rightarrow> string option" where
  \<comment> \<open>The leftmost match wins, as in \<^verbatim>\<open>String.prototype.match\<close>.\<close>
  "extractDivision [] = None"
| "extractDivision (c # cs) =
     (case match_div (c # cs) of
        Some d \<Rightarrow> Some (''Div.'' @ [d])
      | None \<Rightarrow> extractDivision cs)"

definition to_entry :: "contest \<Rightarrow> ContestEntry" where
  "to_entry c =
     \<lparr>ContestEntry.name = contest.name c, division = extractDivision (contest.name c),
      startTimeSeconds = contest.startTimeSeconds c,
      durationSeconds = contest.durationSeconds c\<rparr>"

definition fetchUpcomingContests :: "int \<Rightarrow> contest list \<Rightarrow> ContestEntry list" where
  \<comment> \<open>\<open>now\<close> is \<^verbatim>\<open>dayjs().unix()\<close>; the list is what \<^verbatim>\<open>contest.list\<close> returned.\<close>
  "fetchUpcomingContests now list =
     map to_entry
       (take 20 (filter (\<lambda>c. phase c = ''BEFORE'' \<and> contest.startTimeSeconds c > now) list))"

section \<open>Rating summary (\<^verbatim>\<open>fetchRatingHistory\<close>)\<close>

record rating_summary =
  total :: nat
  bestRank :: "int option"
  avgDelta :: "int option"

record RatingHistory =
  summary :: rating_summary
  entries :: "RatingEntry list"

definition best_step :: "int option \<Rightarrow> RatingEntry \<Rightarrow> int option" where
  "best_step acc e =
     (case acc of None \<Rightarrow> Some (RatingEntry.rank e) | Some a \<Rightarrow> Some (min a (RatingEntry.rank e)))"

definition fetchRatingHistory :: "RatingEntry list \<Rightarrow> RatingHistory" where
  \<comment> \<open>The argument is the list the typed client returned for \<^verbatim>\<open>user.rating\<close>.\<close>
  "fetchRatingHistory es =
     (let total = length es;
          bestRank = foldl best_step None es;
          avgDelta =
            (if total \<noteq> 0
             then Some (Math_round (fl
                    (of_int (foldl (\<lambda>s e. s + (newRating e - oldRating e)) 0 es) / of_nat total)))
             else None)
      in \<lparr>summary = \<lparr>rating_summary.total = total, bestRank = bestRank, avgDelta = avgDelta\<rparr>, entries = es\<rparr>)"

text \<open>The mean rating change of a list of entries, as the specification words it.\<close>

definition mean_delta :: "RatingEntry list \<Rightarrow> rat" where
  "mean_delta es = of_int (\<Sum>e\<leftarrow>es. newRating e - oldRating e) / of_nat (length es)"

section \<open>Weekly activity and streaks (\<^verbatim>\<open>fetchActivity\<close>)\<close>

text \<open>
  The date library (dayjs with its ISO-week plugin) is not part of the repository. Each of
  its results that \<^verbatim>\<open>fetchActivity\<close> uses is a parameter: the ISO week-year, the ISO week
  and the \<^verbatim>\<open>YYYY-MM-DD\<close> text of a Unix time, the ISO week of a parsed week key
  (\<^verbatim>\<open>dayjs(key, 'YYYY-W').isoWeek()\<close>), the ISO week-year and week of the present, and the
  text \<^verbatim>\<open>dayjs().subtract(1, 'week').format('YYYY-W')\<close>.
\<close>

record dayjs_env =
  unix_isoWeekYear :: "int \<Rightarrow> int"
  unix_isoWeek :: "int \<Rightarrow> int"
  unix_format_day :: "int \<Rightarrow> string"
  parse_isoWeek :: "string \<Rightarrow> int"
  now_isoWeekYear :: int
  now_isoWeek :: int
  week_ago_format :: string

record week_tally =
  submissions :: nat
  accepted :: nat

record streak_info =
  current :: nat
  longest :: nat
  activeWeeks :: nat

record week_count =
  week :: string
  submissions :: nat

record Activity =
  weeks :: "(string \<times> week_tally) list"
  streak :: streak_info
  heatmap :: "(string \<times> nat) list"
  mostProductiveWeek :: "week_count option"
  avgAcceptedPerWeek :: rat

fun tally_week :: "string \<Rightarrow> bool \<Rightarrow> (string \<times> week_tally) list \<Rightarrow> (string \<times> week_tally) list" where
  \<comment> \<open>Create the week's entry when it is missing, then count the submission in it.\<close>
  "tally_week w acc [] =
     [(w, \<lparr>week_tally.submissions = 1, accepted = (if acc then 1 else 0)\<rparr>)]"
| "tally_week w acc ((w', t) # ws) =
     (if w = w'
      then (w', \<lparr>week_tally.submissions = week_tally.submissions t + 1,
                 accepted = (if acc then week_tally.accepted t + 1 else week_tally.accepted t)\<rparr>) # ws
      else (w', t) # tally_week w acc ws)"

definition activity_step ::
  "dayjs_env \<Rightarrow> submission \<Rightarrow> (string \<times> week_tally) list \<times> (string \<times> nat) list
     \<Rightarrow> (string \<times> week_tally) list \<times> (string \<times> nat) list" where
  \<comment> \<open>Body of the loop over the submissions.\<close>
  "activity_step d s st =
     (case st of (weekly, days) \<Rightarrow>
        let t = creationTimeSeconds s;
            weekId = string_of_int (unix_isoWeekYear d t) @ ''-'' @ string_of_int (unix_isoWeek d t);
            dayId = unix_format_day d t
        in (tally_week weekId (verdict s = Some ''OK'') weekly, incr dayId days))"

fun streak_loop :: "(string \<Rightarrow> int) \<Rightarrow> bool \<Rightarrow> string list \<Rightarrow> nat \<times> nat \<times> int \<Rightarrow> nat \<times> nat \<times> int" where
  \<comment> \<open>The loop over \<^verbatim>\<open>sortedWeeks\<close>; the flag says that \<^verbatim>\<open>i > 0\<close>; the state is
      \<^verbatim>\<open>(currentStreak, longestStreak, lastWeek)\<close>.\<close>
  "streak_loop p later [] st = st"
| "streak_loop p later (w # ws) (currentStreak, longestStreak, lastWeek) =
     (let week = p w;
          currentStreak' = (if later \<and> week = lastWeek + 1 then currentStreak + 1 else 1);
          longestStreak' = (if currentStreak' > longestStreak then currentStreak' else longestStreak)
      in streak_loop p True ws (currentStreak', longestStreak', week))"

definition productive_step :: "week_count option \<Rightarrow> string \<times> week_tally \<Rightarrow> week_count option" where
  "productive_step best wt =
     (case wt of (w, t) \<Rightarrow>
        (case best of
           None \<Rightarrow> Some \<lparr>week = w, submissions = week_tally.submissions t\<rparr>
         | Some b \<Rightarrow>
             if week_tally.submissions t > week_count.submissions b
             then Some \<lparr>week = w, submissions = week_tally.submissions t\<rparr>
             else best))"

definition fetchActivity :: "dayjs_env \<Rightarrow> submission list \<Rightarrow> Activity" where
  \<comment> \<open>The second argument is the list the typed client returned for \<^verbatim>\<open>user.status\<close>.
      \<^verbatim>\<open>Object.keys(weekly).sort()\<close> orders the keys as strings, by code unit.\<close>
  "fetchActivity d subs =
     (case fold (activity_step d) subs ([], []) of (weekly, days) \<Rightarrow>
        let sortedWeeks = sort (map fst weekly);
            (currentStreak, longestStreak, lastWeek) =
              (if sortedWeeks \<noteq> [] then streak_loop (parse_isoWeek d) False sortedWeeks (0, 0, 0)
               else (0, 0, 0));
            currentWeekId = string_of_int (now_isoWeekYear d) @ ''-'' @ string_of_int (now_isoWeek d);
            currentStreak =
              (if sortedWeeks \<noteq> [] \<and> currentWeekId \<noteq> last sortedWeeks
                  \<and> week_ago_format d \<noteq> last sortedWeeks
               then 0 else currentStreak);
            mostProductiveWeek = foldl productive_step None weekly;
            totalAccepted = (\<Sum>(w, t)\<leftarrow>weekly. week_tally.accepted t);
            totalWeeksWithSubmissions = length sortedWeeks;
            avgAcceptedPerWeek =
              (if totalWeeksWithSubmissions > 0
               then fl (of_nat totalAccepted / of_nat totalWeeksWithSubmissions) else 0)
        in \<lparr>weeks = weekly,
            streak = \<lparr>current = currentStreak, longest = longestStreak,
                       activeWeeks = length sortedWeeks\<rparr>,
            heatmap = days,
            mostProductiveWeek = mostProductiveWeek,
            avgAcceptedPerWeek = avgAcceptedPerWeek\<rparr>)"

subsection \<open>The date library in UTC\<close>

text \<open>
  One instance of the parameters, to run \<^verbatim>\<open>fetchActivity\<close> on concrete submissions: the
  library as the repository loads it, with the ISO-week plugin and neither the
  custom-parse-format nor the advanced-format plugin, in UTC. The calendar is the
  proleptic Gregorian one and the weeks follow ISO 8601. Without the parse plugin the
  format argument of \<^verbatim>\<open>dayjs(key, 'YYYY-W')\<close> is ignored and the key \<^verbatim>\<open>year-week\<close> is read as a
  year and a month, the first day of that month; without the format plugin \<^verbatim>\<open>W\<close> is no
  format token and \<^verbatim>\<open>format('YYYY-W')\<close> gives the four-digit year followed by \<^verbatim>\<open>-W\<close>.
\<close>

definition civil_from_days :: "int \<Rightarrow> int \<times> int \<times> int" where
  \<comment> \<open>Year, month and day of a day number counted from 1970-01-01.\<close>
  "civil_from_days z =
     (let z' = z + 719468;
          era = z' div 146097;
          doe = z' - era * 146097;
          yoe = (doe - doe div 1460 + doe div 36524 - doe div 146096) div 365;
          doy = doe - (365 * yoe + yoe div 4 - yoe div 100);
          mp = (5 * doy + 2) div 153;
          d = doy - (153 * mp + 2) div 5 + 1;
          m = (if mp < 10 then mp + 3 else mp - 9);
          y = yoe + era * 400
      in (if m \<le> 2 then y + 1 else y, m, d))"

definition days_from_civil :: "int \<Rightarrow> int \<Rightarrow> int \<Rightarrow> int" where
  "days_from_civil y m d =
     (let y' = (if m \<le> 2 then y - 1 else y);
          era = y' div 400;
          yoe = y' - era * 400;
          doy = (153 * (if m > 2 then m - 3 else m + 9) + 2) div 5 + d - 1;
          doe = yoe * 365 + yoe div 4 - yoe div 100 + doy
      in era * 146097 + doe - 719468)"

definition iso_thursday :: "int \<Rightarrow> int" where
  \<comment> \<open>The day number of the Thursday of the ISO week of a Unix time; day 0 is a Thursday.\<close>
  "iso_thursday t = (let days = t div 86400 in days - (days + 3) mod 7 + 3)"

definition utc_isoWeekYear :: "int \<Rightarrow> int" where
  "utc_isoWeekYear t = fst (civil_from_days (iso_thursday t))"

definition utc_isoWeek :: "int \<Rightarrow> int" where
  "utc_isoWeek t =
     (iso_thursday t - days_from_civil (utc_isoWeekYear t) 1 1) div 7 + 1"

definition pad2 :: "int \<Rightarrow> string" where
  "pad2 n = (if n < 10 then CHR ''0'' # string_of_int n else string_of_int n)"

definition utc_format_day :: "int \<Rightarrow> string" where
  "utc_format_day t =
     (case civil_from_days (t div 86400) of
        (y, m, d) \<Rightarrow> string_of_int y @ ''-'' @ pad2 m @ ''-'' @ pad2 d)"

definition digit_value :: "char \<Rightarrow> int" where
  "digit_value c = int (of_char c) - 48"

definition digits_value :: "string \<Rightarrow> int" where
  "digits_value ds = foldl (\<lambda>n c. 10 * n + digit_value c) 0 ds"

definition parsed_key_isoWeek :: "string \<Rightarrow> int" where
  \<comment> \<open>\<^verbatim>\<open>dayjs(key, 'YYYY-W').isoWeek()\<close>: the key is parsed as \<^verbatim>\<open>new Date(year, month - 1, 1)\<close>
      with the digits before and after the hyphen, a month past December running into
      the following years; the result is the ISO week of that day.\<close>
  "parsed_key_isoWeek k =
     (let y = digits_value (takeWhile (\<lambda>c. c \<noteq> CHR ''-'') k);
          m = digits_value (drop 1 (dropWhile (\<lambda>c. c \<noteq> CHR ''-'') k));
          month = m - 1;
          y' = y + month div 12;
          m' = month mod 12 + 1
      in utc_isoWeek (days_from_civil y' m' 1 * 86400))"

definition pad4 :: "int \<Rightarrow> string" where
  \<comment> \<open>The token \<^verbatim>\<open>YYYY\<close>: the year, padded with zeros to four characters.\<close>
  "pad4 y = (let s = string_of_int y in replicate (4 - length s) CHR ''0'' @ s)"

definition dayjs_utc :: "int \<Rightarrow> dayjs_env" where
  \<comment> \<open>The argument is the present, in Unix seconds.\<close>
  "dayjs_utc now =
     \<lparr>unix_isoWeekYear = utc_isoWeekYear,
      unix_isoWeek = utc_isoWeek,
      unix_format_day = utc_format_day,
      parse_isoWeek = parsed_key_isoWeek,
      now_isoWeekYear = utc_isoWeekYear now,
      now_isoWeek = utc_isoWeek now,
      week_ago_format = pad4 (fst (civil_from_days ((now - 604800) div 86400))) @ ''-W''\<rparr>"

section \<open>Profile (\<^verbatim>\<open>fetchProfile\<close>, \<^verbatim>\<open>computeCustomScore\<close>)\<close>

datatype error = Error string | TypeError string | SyntaxError string

fun message :: "error \<Rightarrow> string" where
  "message (Error m) = m"
| "message (TypeError m) = m"
| "message (SyntaxError m) = m"

record user =
  handle :: string
  rank :: "string option"
  rating :: "int option"
  maxRating :: "int option"
  maxRank :: "string option"
  contribution :: "int option"
  registrationTimeSeconds :: int
  friendOfCount :: "int option"

record ProfileAggregate =
  handle :: string
  title :: "string option"
  currentRating :: "int option"
  maxRating :: "int option"
  maxRank :: "string option"
  contribution :: int
  registrationTime :: int
  customScore :: int

definition nullish_or :: "int option \<Rightarrow> int \<Rightarrow> int" where
  \<comment> \<open>\<^verbatim>\<open>x ?? d\<close> on a number that may be missing.\<close>
  "nullish_or x d = (case x of None \<Rightarrow> d | Some v \<Rightarrow> v)"

definition computeCustomScore :: "user \<Rightarrow> int" where
  "computeCustomScore u =
     (let rating = nullish_or (user.rating u) 0;
          contests = nullish_or (friendOfCount u) 0
      in Math_round (fl (fl (of_int rating * fl (9 / 10)) + fl (of_int contests * fl (1 / 10)))))"

definition fetchProfile :: "user list \<Rightarrow> error + ProfileAggregate" where
  \<comment> \<open>The argument is the list the typed client returned for \<^verbatim>\<open>user.info\<close>;
      \<^verbatim>\<open>const [user] = ...\<close> takes its first element, and reading a field of the
      \<^verbatim>\<open>undefined\<close> an empty list gives throws.\<close>
  "fetchProfile us =
     (case us of
        [] \<Rightarrow> Inl (TypeError ''Cannot read properties of undefined'')
      | u # _ \<Rightarrow>
          let customScore = computeCustomScore u
          in Inr \<lparr>ProfileAggregate.handle = user.handle u,
                  title = (case user.rank u of None \<Rightarrow> None | Some r \<Rightarrow> if r = [] then None else Some r),
                  currentRating = user.rating u,
                  maxRating = user.maxRating u,
                  maxRank = user.maxRank u,
                  contribution = nullish_or (user.contribution u) 0,
                  registrationTime = registrationTimeSeconds u,
                  customScore = customScore\<rparr>)"

section \<open>Typed client (\<^verbatim>\<open>cf\<close>)\<close>

record 'b Response =
  status :: int
  body :: 'b

record 'r envelope =
  status :: "string option"
  comment :: "string option"
  result :: 'r

definition ok :: "'b Response \<Rightarrow> bool" where
  \<comment> \<open>\<^verbatim>\<open>Response.ok\<close>: the status is in the range 200 to 299.\<close>
  "ok res = (200 \<le> Response.status res \<and> Response.status res \<le> 299)"

definition cf :: "error + (error + 'r envelope) Response \<Rightarrow> error + 'r" where
  \<comment> \<open>The argument is the outcome of \<^verbatim>\<open>fetch\<close>: it threw, or it gave a response, whose
      body is the outcome of \<^verbatim>\<open>res.json()\<close>.\<close>
  "cf fetched =
     (case fetched of
        Inl e \<Rightarrow> Inl e
      | Inr res \<Rightarrow>
          if \<not> ok res then Inl (Error (''CF error: '' @ string_of_int (Response.status res)))
          else (case body res of
                  Inl e \<Rightarrow> Inl e
                | Inr json \<Rightarrow>
                    if envelope.status json \<noteq> Some ''OK''
                    then Inl (Error (truthy_or (comment json) ''CF API failed''))
                    else Inr (result json)))"

section \<open>Request signer (\<^verbatim>\<open>signCfRequest\<close>)\<close>

datatype cf_value = Str string | Num int | Bool bool | Undefined

fun String :: "cf_value \<Rightarrow> string" where
  "String (Str s) = s"
| "String (Num n) = string_of_int n"
| "String (Bool b) = (if b then ''true'' else ''false'')"
| "String Undefined = ''undefined''"

text \<open>
  What the signer reads from outside: the two environment variables, the clock, the random
  bytes, and the library functions \<^verbatim>\<open>createHash('sha512')\<close>, \<^verbatim>\<open>encodeURIComponent\<close> and
  \<^verbatim>\<open>String.prototype.localeCompare\<close>.
\<close>

record signer_env =
  CF_KEY :: "string option"
  CF_SECRET :: "string option"
  Date_now :: int
  randomBytes_hex :: string
  sha512_hex :: "string \<Rightarrow> string"
  encodeURIComponent :: "string \<Rightarrow> string"
  localeCompare :: "string \<Rightarrow> string \<Rightarrow> int"

record signed_request =
  url :: string

fun obj_set :: "string \<Rightarrow> 'v \<Rightarrow> (string \<times> 'v) list \<Rightarrow> (string \<times> 'v) list" where
  \<comment> \<open>\<^verbatim>\<open>obj[k] = v\<close> on an object kept as its entries in insertion order.\<close>
  "obj_set k v [] = [(k, v)]"
| "obj_set k v ((k', v') # kvs) = (if k = k' then (k', v) # kvs else (k', v') # obj_set k v kvs)"

definition fromEntries :: "(string \<times> 'v) list \<Rightarrow> (string \<times> 'v) list" where
  "fromEntries kvs = fold (\<lambda>(k, v). obj_set k v) kvs []"

definition baseParams :: "signer_env \<Rightarrow> string \<Rightarrow> (string \<times> cf_value) list \<Rightarrow> (string \<times> string) list" where
  \<comment> \<open>The entries of \<^verbatim>\<open>baseParams\<close>; the second argument is the API key.\<close>
  "baseParams env apiKey params =
     obj_set ''time'' (string_of_int (Date_now env div 1000))
       (obj_set ''apiKey'' apiKey
          (fromEntries (map (\<lambda>(k, v). (k, String v)) (filter (\<lambda>(k, v). v \<noteq> Undefined) params))))"

definition compare_entries ::
  "(string \<Rightarrow> string \<Rightarrow> int) \<Rightarrow> string \<times> string \<Rightarrow> string \<times> string \<Rightarrow> int" where
  "compare_entries lc a b =
     (case a of (ak, av) \<Rightarrow> case b of (bk, bv) \<Rightarrow> if ak = bk then lc av bv else lc ak bk)"

fun insert_by :: "('a \<Rightarrow> 'a \<Rightarrow> int) \<Rightarrow> 'a \<Rightarrow> 'a list \<Rightarrow> 'a list" where
  "insert_by c x [] = [x]"
| "insert_by c x (y # ys) = (if c x y \<le> 0 then x # y # ys else y # insert_by c x ys)"

definition sort_by :: "('a \<Rightarrow> 'a \<Rightarrow> int) \<Rightarrow> 'a list \<Rightarrow> 'a list" where
  \<comment> \<open>\<^verbatim>\<open>Array.prototype.sort\<close> with a comparator: a stable sort.\<close>
  "sort_by c xs = foldr (insert_by c) xs []"

fun join :: "string \<Rightarrow> string list \<Rightarrow> string" where
  "join sep [] = []"
| "join sep [x] = x"
| "join sep (x # y # ys) = x @ sep @ join sep (y # ys)"

definition sorted_params :: "signer_env \<Rightarrow> string \<Rightarrow> (string \<times> cf_value) list \<Rightarrow> (string \<times> string) list" where
  "sorted_params env apiKey params =
     sort_by (compare_entries (localeCompare env)) (baseParams env apiKey params)"

definition signCfRequest ::
  "signer_env \<Rightarrow> string \<Rightarrow> (string \<times> cf_value) list \<Rightarrow> error + signed_request" where
  \<comment> \<open>\<open>params\<close> are the entries of the parameter object, in the order
      \<^verbatim>\<open>Object.entries\<close> lists them.\<close>
  "signCfRequest env methodName params =
     (case (CF_KEY env, CF_SECRET env) of
        (Some apiKey, Some apiSecret) \<Rightarrow>
          if apiKey = [] \<or> apiSecret = [] then Inl (Error ''Missing CF_KEY/CF_SECRET'')
          else
            let sorted = sorted_params env apiKey params;
                query = join ''&'' (map (\<lambda>(k, v). k @ ''='' @ encodeURIComponent env v) sorted);
                rand = randomBytes_hex env;
                sigBase = rand @ ''/'' @ methodName @ ''?''
                            @ join ''&'' (map (\<lambda>(k, v). k @ ''='' @ v) sorted) @ ''#'' @ apiSecret;
                hash = sha512_hex env sigBase;
                apiSig = rand @ hash
            in Inr \<lparr>url = ''https://codeforces.com/api/'' @ methodName @ ''?'' @ query
                           @ ''&apiSig='' @ apiSig\<rparr>
      | _ \<Rightarrow> Inl (Error ''Missing CF_KEY/CF_SECRET''))"

text \<open>
  \<^verbatim>\<open>localeCompare\<close> belongs to the runtime. What the order of the sorted pairs rests on
  is that it is a linear order on the strings compared: zero on equal strings only,
  antisymmetric in its sign, and transitive.
\<close>

definition linear_compare :: "(string \<Rightarrow> string \<Rightarrow> int) \<Rightarrow> bool" where
  "linear_compare c \<longleftrightarrow>
     (\<forall>a b. c a b = 0 \<longleftrightarrow> a = b) \<and> (\<forall>a b. c a b < 0 \<longleftrightarrow> 0 < c b a)
     \<and> (\<forall>a b d. c a b \<le> 0 \<and> c b d \<le> 0 \<longrightarrow> c a d \<le> 0)"

section \<open>Rate-limited gateway (\<^verbatim>\<open>GET /api/cf\<close>)\<close>

datatype response_body = Json_error string | Upstream_body string

record request =
  searchParams :: "(string \<times> string) list"

text \<open>
  What the handler reads from outside: the clock when it starts, the signer's environment,
  the upstream \<^verbatim>\<open>fetch\<close> (it throws or gives a response), and the clock once the
  response is there.
\<close>

record gateway_env =
  Date_now_entry :: int
  signer :: signer_env
  fetch :: "string \<Rightarrow> error + response_body Response"
  Date_now_fetched :: int

record gateway_result =
  response :: "response_body Response"
  lastCallTs :: int
  waited_ms :: int

definition minIntervalMs :: int where
  "minIntervalMs = 2000"

definition searchParams_get :: "string \<Rightarrow> (string \<times> string) list \<Rightarrow> string option" where
  \<comment> \<open>\<^verbatim>\<open>URLSearchParams.get\<close>: the first value of the name, or \<^verbatim>\<open>null\<close>.\<close>
  "searchParams_get k ps = map_of ps k"

definition forward_params :: "request \<Rightarrow> (string \<times> cf_value) list" where
  \<comment> \<open>The entries of \<^verbatim>\<open>params\<close>: every query parameter but \<^verbatim>\<open>method\<close>, a repeated name
      keeping its place and taking its last value.\<close>
  "forward_params req =
     map (\<lambda>(k, v). (k, Str v))
       (fold (\<lambda>(k, v) ps. if k \<noteq> ''method'' then obj_set k v ps else ps) (searchParams req) [])"

definition GET :: "gateway_env \<Rightarrow> request \<Rightarrow> int \<Rightarrow> gateway_result" where
  \<comment> \<open>The third argument is the module variable \<^verbatim>\<open>lastCallTs\<close> when the handler starts;
      the result carries its value when the handler returns, and the time the handler
      was suspended before dispatching.\<close>
  "GET env req lastCallTs0 =
     (case searchParams_get ''method'' (searchParams req) of
        None \<Rightarrow>
          \<lparr>response = \<lparr>Response.status = 400, body = Json_error ''Missing method''\<rparr>,
           lastCallTs = lastCallTs0, waited_ms = 0\<rparr>
      | Some method \<Rightarrow>
          if method = [] then
            \<lparr>response = \<lparr>Response.status = 400, body = Json_error ''Missing method''\<rparr>,
             lastCallTs = lastCallTs0, waited_ms = 0\<rparr>
          else
            let elapsed = Date_now_entry env - lastCallTs0;
                waited = (if elapsed < minIntervalMs then minIntervalMs - elapsed else 0)
            in case signCfRequest (signer env) method (forward_params req) of
                 Inl e \<Rightarrow>
                   \<lparr>response = \<lparr>Response.status = 500, body = Json_error (message e)\<rparr>,
                    lastCallTs = lastCallTs0, waited_ms = waited\<rparr>
               | Inr s \<Rightarrow>
                   (case fetch env (url s) of
                      Inl e \<Rightarrow>
                        \<lparr>response = \<lparr>Response.status = 500, body = Json_error (message e)\<rparr>,
                         lastCallTs = lastCallTs0, waited_ms = waited\<rparr>
                    | Inr cfRes \<Rightarrow>
                        \<lparr>response = \<lparr>Response.status = Response.status cfRes, body = body cfRes\<rparr>,
                         lastCallTs = Date_now_fetched env, waited_ms = waited\<rparr>))"

section \<open>Inputs of the examples\<close>

definition example_entries :: "RatingEntry list" where
  \<comment> \<open>Ranks 12, 3, 50 with rating changes +20, -5, +10.\<close>
  "example_entries =
     [\<lparr>contestName = ''Round 1'', contestId = 1001, ratingUpdateTimeSeconds = 1700000000,
        rank = 12, oldRating = 1500, newRating = 1520\<rparr>,
      \<lparr>contestName = ''Round 2'', contestId = 1002, ratingUpdateTimeSeconds = 1700600000,
        rank = 3, oldRating = 1520, newRating = 1515\<rparr>,
      \<lparr>contestName = ''Round 3'', contestId = 1003, ratingUpdateTimeSeconds = 1701200000,
        rank = 50, oldRating = 1515, newRating = 1525\<rparr>]"

definition accepted_800 :: "int \<Rightarrow> submission" where
  \<comment> \<open>An accepted submission to problem 1A (rating 800) at the given time.\<close>
  "accepted_800 t =
     \<lparr>creationTimeSeconds = t, verdict = Some ''OK'', programmingLanguage = Some ''C++'',
      problem = \<lparr>problem.contestId = Some 1, index = ''A'', rating = Some 800\<rparr>\<rparr>"

definition example_contests :: "int \<Rightarrow> contest list" where
  \<comment> \<open>Phases BEFORE, FINISHED, BEFORE with start times \<open>now + 100\<close>, \<open>now - 100\<close>,
      \<open>now + 50\<close>.\<close>
  "example_contests now =
     [\<lparr>contest.name = ''Codeforces Round A (Div. 1)'', phase = ''BEFORE'',
        startTimeSeconds = now + 100, durationSeconds = 7200\<rparr>,
      \<lparr>contest.name = ''Codeforces Round B (Div. 2)'', phase = ''FINISHED'',
        startTimeSeconds = now - 100, durationSeconds = 7200\<rparr>,
      \<lparr>contest.name = ''Codeforces Round C (Div. 3)'', phase = ''BEFORE'',
        startTimeSeconds = now + 50, durationSeconds = 7200\<rparr>]"

definition code_unit_compare :: "string \<Rightarrow> string \<Rightarrow> int" where
  \<comment> \<open>A comparison of strings by code units, in the place of \<^verbatim>\<open>localeCompare\<close>.\<close>
  "code_unit_compare a b = (if a = b then 0 else if a < b then - 1 else 1)"

definition example_signer :: signer_env where
  "example_signer =
     \<lparr>CF_KEY = Some ''key'', CF_SECRET = Some ''secret'', Date_now = 1700000000123,
      randomBytes_hex = ''a1b2c3'', sha512_hex = (\<lambda>s. ''sha512('' @ s @ '')''),
      encodeURIComponent = (\<lambda>s. s), localeCompare = code_unit_compare\<rparr>"

definition example_gateway :: "signer_env \<Rightarrow> gateway_env" where
  \<comment> \<open>The handler starts at 5000 ms; upstream answers 200 and the clock then reads 5300 ms.\<close>
  "example_gateway senv =
     \<lparr>Date_now_entry = 5000, signer = senv,
      fetch = (\<lambda>u. Inr \<lparr>Response.status = 200, body = Upstream_body ''{}''\<rparr>),
      Date_now_fetched = 5300\<rparr>"

definition example_request :: request where
  "example_request = \<lparr>searchParams = [(''method'', ''user.info''), (''handles'', ''tourist'')]\<rparr>"

definition example_user :: user where
  "example_user =
     \<lparr>user.handle = ''someone'', rank = Some ''expert'', rating = Some 1500, maxRating = Some 1600,
      maxRank = Some ''expert'', contribution = Some 0, registrationTimeSeconds = 1265987288,
      friendOfCount = Some 20\<rparr>"

section \<open>Rounding to binary64\<close>

lemma pow2_pos: "(0::rat) < 2 powi e"
  by (simp add: zero_less_power_int)

lemma bitlen_powi:
  assumes "0 < n"
  shows "(2::rat) powi (bitlen n - 1) \<le> of_int n \<and> of_int n < (2::rat) powi (bitlen n)"
proof -
  have b: "2 ^ nat (bitlen n - 1) \<le> n \<and> n < 2 ^ nat (bitlen n)"
    using bitlen_bounds [OF assms] .
  have ge1: "1 \<le> bitlen n"
    using assms bitlen_nonneg [of n] bitlen_eq_zero_iff [of n] by linarith
  have "(2::rat) powi (bitlen n - 1) = of_int (2 ^ nat (bitlen n - 1))"
    using ge1 by (simp add: power_int_def)
  moreover have "(2::rat) powi (bitlen n) = of_int (2 ^ nat (bitlen n))"
    using ge1 by (simp add: power_int_def)
  ultimately show ?thesis
    using b by (metis of_int_le_iff of_int_less_iff)
qed

lemma binexp_bounds:
  assumes "x \<noteq> 0"
  shows "2 powi (binexp x) \<le> \<bar>x\<bar> \<and> \<bar>x\<bar> < 2 powi (binexp x + 1)"
proof -
  obtain p q where pq: "quotient_of \<bar>x\<bar> = (p, q)"
    by (cases "quotient_of \<bar>x\<bar>")
  have q: "0 < q" using quotient_of_denom_pos [OF pq] .
  have x: "\<bar>x\<bar> = of_int p / of_int q" using quotient_of_div [OF pq] .
  have p: "0 < p"
  proof -
    have "0 < \<bar>x\<bar>" using assms by simp
    then have "(0::rat) < of_int p / of_int q" using x by simp
    then show ?thesis using q by (simp add: zero_less_divide_iff)
  qed
  define e where "e = bitlen p - bitlen q"
  have bp: "(2::rat) powi (bitlen p - 1) \<le> of_int p" "of_int p < (2::rat) powi (bitlen p)"
    using bitlen_powi [OF p] by simp_all
  have bq: "(2::rat) powi (bitlen q - 1) \<le> of_int q" "of_int q < (2::rat) powi (bitlen q)"
    using bitlen_powi [OF q] by simp_all
  have qpos: "(0::rat) < of_int q" using q by simp
  have up: "\<bar>x\<bar> < 2 powi (e + 1)"
  proof -
    have "of_int p < (2::rat) powi (e + 1) * 2 powi (bitlen q - 1)"
      using bp(2) by (simp add: e_def flip: power_int_add)
    also have "\<dots> \<le> 2 powi (e + 1) * of_int q"
      using bq(1) pow2_pos [of "e + 1"] by simp
    finally show ?thesis
      using qpos by (simp add: x pos_divide_less_eq)
  qed
  have lo: "2 powi (e - 1) < \<bar>x\<bar>"
  proof -
    have "(2::rat) powi (e - 1) * of_int q < 2 powi (e - 1) * 2 powi (bitlen q)"
      using bq(2) pow2_pos [of "e - 1"] by simp
    also have "\<dots> = 2 powi (bitlen p - 1)"
      by (simp add: e_def flip: power_int_add)
    also have "\<dots> \<le> of_int p" using bp(1) .
    finally show ?thesis
      using qpos by (simp add: x pos_less_divide_eq)
  qed
  have be: "binexp x = (if 2 powi e \<le> \<bar>x\<bar> then e else e - 1)"
    by (simp add: binexp_def pq e_def Let_def)
  show ?thesis
  proof (cases "2 powi e \<le> \<bar>x\<bar>")
    case True
    then show ?thesis using up be by simp
  next
    case False
    then show ?thesis using lo be by simp
  qed
qed

lemma pow2_mono: "a \<le> b \<Longrightarrow> (2::rat) powi a \<le> 2 powi b"
  by (rule power_int_increasing) simp_all

lemma pow2_less_imp: "(2::rat) powi a < 2 powi b \<Longrightarrow> a < b"
  using pow2_mono [of b a] by (cases "a < b") simp_all

lemma binexp_unique:
  assumes "2 powi e \<le> \<bar>x\<bar>" "\<bar>x\<bar> < 2 powi (e + 1)"
  shows "binexp x = e"
proof -
  have nz: "x \<noteq> 0"
  proof
    assume "x = 0"
    then have "2 powi e \<le> (0::rat)" using assms(1) by simp
    then show False using pow2_pos [of e] by linarith
  qed
  note b = binexp_bounds [OF nz]
  have "2 powi e < (2::rat) powi (binexp x + 1)" using assms(1) b by linarith
  then have 1: "e < binexp x + 1" by (rule pow2_less_imp)
  have "2 powi (binexp x) < (2::rat) powi (e + 1)" using assms(2) b by linarith
  then have 2: "binexp x < e + 1" by (rule pow2_less_imp)
  show ?thesis using 1 2 by simp
qed


lemma round_half_even_of_int: "round_half_even (of_int m) = m"
  by (simp add: round_half_even_def)

lemma round_half_even_close: "\<bar>of_int (round_half_even q) - q\<bar> \<le> 1 / 2"
proof -
  have f: "of_int \<lfloor>q\<rfloor> \<le> q" "q < of_int \<lfloor>q\<rfloor> + 1" by linarith+
  consider "q - of_int \<lfloor>q\<rfloor> < 1 / 2" | "1 / 2 < q - of_int \<lfloor>q\<rfloor>" | "q - of_int \<lfloor>q\<rfloor> = 1 / 2"
    by linarith
  then show ?thesis
  proof cases
    case 1
    then have "round_half_even q = \<lfloor>q\<rfloor>" by (simp add: round_half_even_def)
    then show ?thesis using 1 f by simp
  next
    case 2
    then have "round_half_even q = \<lfloor>q\<rfloor> + 1" by (simp add: round_half_even_def)
    then show ?thesis using 2 f by simp
  next
    case 3
    then have "round_half_even q = \<lfloor>q\<rfloor> \<or> round_half_even q = \<lfloor>q\<rfloor> + 1"
      by (simp add: round_half_even_def Let_def)
    then show ?thesis using 3 by auto
  qed
qed

lemma p53: "(2::rat) ^ 53 = 2 powi 53"
  by simp

lemma pow2_add: "(2::rat) powi a * 2 powi b = 2 powi (a + b)"
  by (simp add: power_int_add)

lemma fl_unfold:
  "x \<noteq> 0 \<Longrightarrow> fl x = of_int (round_half_even (x / 2 powi (binexp x - 52))) * 2 powi (binexp x - 52)"
  by (simp only: fl_def Let_def if_False)

lemma fl_exact:
  assumes "\<bar>m\<bar> < 2 ^ 53"
  shows "fl (of_int m * 2 powi k) = of_int m * 2 powi k"
proof (cases "m = 0")
  case True
  then show ?thesis by (simp add: fl_def)
next
  case False
  define y :: rat where "y = of_int m * 2 powi k"
  define e where "e = binexp y"
  have ynz: "y \<noteq> 0" using False by (simp add: y_def)
  have ay: "\<bar>y\<bar> = of_int \<bar>m\<bar> * 2 powi k"
    using pow2_pos [of k] by (simp add: y_def abs_mult)
  have "of_int \<bar>m\<bar> < (2::rat) ^ 53"
    using assms by (metis of_int_less_iff of_int_numeral of_int_power)
  then have "\<bar>y\<bar> < 2 ^ 53 * 2 powi k"
    using pow2_pos [of k] by (simp only: ay mult_less_cancel_right_pos)
  also have "\<dots> = 2 powi (53 + k)"
    by (simp only: p53 pow2_add)
  finally have "2 powi e < (2::rat) powi (53 + k)"
    using binexp_bounds [OF ynz] by (simp add: e_def)
  then have "e < 53 + k" by (rule pow2_less_imp)
  then have n: "0 \<le> k - e + 52" by simp
  have "y / 2 powi (e - 52) = of_int m * 2 powi (k - (e - 52))"
    by (simp add: y_def power_int_diff)
  also have "\<dots> = of_int m * 2 ^ nat (k - e + 52)"
    using n by (simp add: power_int_def algebra_simps)
  also have "\<dots> = of_int (m * 2 ^ nat (k - e + 52))"
    by simp
  finally have q: "y / 2 powi (e - 52) = of_int (m * 2 ^ nat (k - e + 52))" .
  have "fl y = of_int (round_half_even (y / 2 powi (e - 52))) * 2 powi (e - 52)"
    unfolding e_def by (rule fl_unfold [OF ynz])
  also have "\<dots> = y / 2 powi (e - 52) * 2 powi (e - 52)"
    by (simp only: q round_half_even_of_int)
  also have "\<dots> = y" by simp
  finally show ?thesis by (simp add: y_def)
qed

lemma fl_fl: "fl (fl x) = fl x"
proof (cases "x = 0")
  case True
  then show ?thesis by (simp add: fl_def)
next
  case False
  define e where "e = binexp x"
  define u :: rat where "u = 2 powi (e - 52)"
  define m where "m = round_half_even (x / u)"
  have u: "0 < u" by (simp add: u_def pow2_pos)
  have fx: "fl x = of_int m * u"
    unfolding m_def u_def e_def by (rule fl_unfold [OF False])
  have "53 + (e - 52) = binexp x + 1" by (simp add: e_def)
  then have "\<bar>x\<bar> < 2 powi (53 + (e - 52))"
    using binexp_bounds [OF False] by (simp only:)
  also have "\<dots> = 2 ^ 53 * u"
    by (simp only: p53 pow2_add u_def)
  finally have "\<bar>x\<bar> / u < 2 ^ 53" using u by (simp only: pos_divide_less_eq)
  then have xu: "\<bar>x / u\<bar> < 2 ^ 53" using u by (simp add: abs_divide)
  have "\<bar>of_int m - x / u\<bar> \<le> 1 / 2"
    unfolding m_def by (rule round_half_even_close)
  then have "\<bar>(of_int m :: rat)\<bar> < 2 ^ 53 + 1" using xu by linarith
  then have "(of_int \<bar>m\<bar> :: rat) < of_int (2 ^ 53 + 1)" by simp
  then have "\<bar>m\<bar> < 2 ^ 53 + 1" by (simp only: of_int_less_iff)
  then have m: "\<bar>m\<bar> \<le> 2 ^ 53" by simp
  show ?thesis
  proof (cases "\<bar>m\<bar> < 2 ^ 53")
    case True
    show ?thesis unfolding fx u_def by (rule fl_exact [OF True])
  next
    case False
    with m have "\<bar>m\<bar> = 2 ^ 53" by simp
    then obtain m' where m': "m = 2 * m'" "\<bar>m'\<bar> < 2 ^ 53"
      by (cases "0 \<le> m") (auto intro: that [of "2 ^ 52"] that [of "- (2 ^ 52)"])
    have "(2::rat) powi (1 + (e - 52)) = 2 powi 1 * 2 powi (e - 52)"
      by (simp only: pow2_add)
    then have "(2::rat) powi (e - 52 + 1) = 2 * u"
      by (simp add: u_def add.commute)
    then have "of_int m * u = of_int m' * 2 powi (e - 52 + 1)"
      by (simp add: m'(1))
    then show ?thesis
      unfolding fx using fl_exact [OF m'(2), of "e - 52 + 1"] by simp
  qed
qed


lemma Math_round_fl_div:
  assumes n: "0 < n" and s: "\<bar>s\<bar> < 2 ^ 52"
  shows "Math_round (fl (of_int s / of_int n)) = Math_round (of_int s / of_int n)"
proof (cases "s = 0")
  case True
  then show ?thesis by (simp add: fl_def)
next
  case False
  define x :: rat where "x = of_int s / of_int n"
  define k where "k = \<lfloor>x + 1 / 2\<rfloor>"
  define e where "e = binexp x"
  define u :: rat where "u = 2 powi (e - 52)"
  define m where "m = round_half_even (x / u)"
  define j where "j = nat (51 - e)"
  have npos: "(0::rat) < of_int n" using n by simp
  have n1: "(1::rat) \<le> of_int n" using n by (simp add: int_one_le_iff_zero_less)
  have xnz: "x \<noteq> 0" using False n by (simp add: x_def)
  have u: "0 < u" by (simp add: u_def pow2_pos)
  have fx: "fl x = of_int m * u"
    unfolding m_def u_def e_def by (rule fl_unfold [OF xnz])
  have mq: "\<bar>of_int m - x / u\<bar> \<le> 1 / 2"
    unfolding m_def by (rule round_half_even_close)
  have nx: "of_int n * \<bar>x\<bar> = of_int \<bar>s\<bar>"
    using npos by (simp add: x_def abs_divide)
  have s52: "(of_int \<bar>s\<bar> :: rat) < 2 powi 52"
  proof -
    have "(of_int \<bar>s\<bar> :: rat) < of_int (2 ^ 52)" using s by (simp only: of_int_less_iff)
    then show ?thesis by simp
  qed
  have lo: "2 powi e \<le> \<bar>x\<bar>" using binexp_bounds [OF xnz] by (simp add: e_def)
  have "\<bar>x\<bar> \<le> of_int n * \<bar>x\<bar>"
    using n1 by (simp add: mult_le_cancel_right1)
  then have "2 powi e < (2::rat) powi 52" using lo nx s52 by linarith
  then have e52: "e < 52" by (rule pow2_less_imp)
  have uj: "1 / u = 2 * 2 ^ j"
  proof -
    have "1 / u = 2 powi (52 - e)"
      by (simp add: u_def power_int_diff)
    also have "52 - e = 1 + int j" using e52 by (simp add: j_def)
    also have "(2::rat) powi (1 + int j) = 2 * 2 ^ j"
      by (simp add: power_int_add)
    finally show ?thesis .
  qed
  have nu: "of_int n * u < 1"
  proof -
    have "of_int n * 2 powi e \<le> of_int n * \<bar>x\<bar>"
      using lo npos by simp
    then have "of_int n * 2 powi e < (2::rat) powi 52" using nx s52 by linarith
    moreover have "u * 2 powi 52 = 2 powi e" by (simp only: u_def pow2_add) simp
    ultimately have "(of_int n * u) * 2 powi 52 < 1 * (2::rat) powi 52"
      by (simp only: mult.assoc mult_1)
    then show ?thesis using pow2_pos [of 52] by (simp only: mult_less_cancel_right_pos)
  qed
  have kx: "of_int k \<le> x + 1 / 2" "x + 1 / 2 < of_int k + 1"
    unfolding k_def by linarith+
  define A where "A = (2 * k - 1) * 2 ^ j"
  define B where "B = (2 * k + 1) * 2 ^ j"
  have Au: "of_int A * u = of_int k - 1 / 2"
  proof -
    have "of_int A = (of_int k - 1 / 2) * (1 / u)"
      by (simp add: A_def uj algebra_simps)
    then show ?thesis using u by simp
  qed
  have Bu: "of_int B * u = of_int k + 1 / 2"
  proof -
    have "of_int B = (of_int k + 1 / 2) * (1 / u)"
      by (simp add: B_def uj algebra_simps)
    then show ?thesis using u by simp
  qed
  have lower: "of_int k - 1 / 2 \<le> of_int m * u"
  proof -
    have "of_int A * u \<le> x" using kx(1) Au by linarith
    then have "of_int A \<le> x / u" using u by (simp add: pos_le_divide_eq)
    then have "(of_int A :: rat) < of_int m + 1" using mq by linarith
    then have "(of_int A :: rat) < of_int (m + 1)" by simp
    then have "A < m + 1" by (simp only: of_int_less_iff)
    then have "A \<le> m" by simp
    then have "(of_int A :: rat) \<le> of_int m" by (simp only: of_int_le_iff)
    then have "of_int A * u \<le> of_int m * u" using u by simp
    then show ?thesis using Au by simp
  qed
  have upper: "of_int m * u < of_int k + 1 / 2"
  proof -
    have "of_int s / of_int n < (of_int k + 1 / 2 :: rat)"
      using kx(2) by (simp add: x_def)
    then have "(of_int s :: rat) < (of_int k + 1 / 2) * of_int n"
      using npos by (simp add: pos_divide_less_eq)
    then have "(of_int (2 * s) :: rat) < of_int ((2 * k + 1) * n)"
      by (simp add: algebra_simps)
    then have "2 * s < (2 * k + 1) * n" by (simp only: of_int_less_iff)
    then have "2 * s + 1 \<le> (2 * k + 1) * n" by simp
    then have "(of_int (2 * s + 1) :: rat) \<le> of_int ((2 * k + 1) * n)"
      by (simp only: of_int_le_iff)
    then have "2 * of_int s + 1 \<le> (2 * of_int k + 1) * (of_int n :: rat)"
      by simp
    then have "(2 * of_int s + 1) / (2 * of_int n) \<le> ((2 * of_int k + 1) * of_int n) / (2 * of_int n :: rat)"
      using npos by (intro divide_right_mono) simp_all
    moreover have "x + 1 / (2 * of_int n) = (2 * of_int s + 1) / (2 * of_int n)"
      using npos by (simp add: x_def add_divide_distrib)
    moreover have "((2 * of_int k + 1) * of_int n) / (2 * of_int n :: rat) = of_int k + 1 / 2"
      using npos by (simp add: add_divide_distrib)
    ultimately have "x + 1 / (2 * of_int n) \<le> of_int k + 1 / 2"
      by (simp only:)
    moreover have "u / 2 < 1 / (2 * of_int n)"
      using nu npos by (simp add: field_simps)
    ultimately have "x + u / 2 < of_int B * u" using Bu by linarith
    then have "(x + u / 2) / u < of_int B" using u by (simp add: pos_divide_less_eq)
    then have "x / u + 1 / 2 < of_int B" using u by (simp add: add_divide_distrib)
    then have "(of_int m :: rat) < of_int B" using mq by linarith
    then have "m < B" by (simp only: of_int_less_iff)
    then have "m + 1 \<le> B" by simp
    then have "(of_int (m + 1) :: rat) \<le> of_int B" by (simp only: of_int_le_iff)
    then have "(of_int m + 1) * u \<le> of_int B * u" using u by simp
    then have "of_int m * u + u \<le> of_int k + 1 / 2" using Bu by (simp add: algebra_simps)
    then show ?thesis using u by linarith
  qed
  have "Math_round (fl x) = k"
    unfolding Math_round_def fx using lower upper by (intro floor_unique) linarith+
  then show ?thesis by (simp add: x_def k_def Math_round_def)
qed

section \<open>Rating summary\<close>

lemma foldl_best_step_Some:
  "foldl best_step (Some a) es = Some (Min (insert a (RatingEntry.rank ` set es)))"
proof (induction es arbitrary: a)
  case Nil
  show ?case by simp
next
  case (Cons e es)
  have "Min (insert (min a (RatingEntry.rank e)) (RatingEntry.rank ` set es))
          = Min (insert a (insert (RatingEntry.rank e) (RatingEntry.rank ` set es)))"
  proof (cases "es = []")
    case True
    then show ?thesis by simp
  next
    case False
    then have "RatingEntry.rank ` set es \<noteq> {}" by simp
    then show ?thesis by (simp add: min.assoc)
  qed
  moreover have "foldl best_step (Some a) (e # es)
                   = foldl best_step (Some (min a (RatingEntry.rank e))) es"
    by (simp add: best_step_def)
  ultimately show ?case by (simp only: Cons.IH list.set image_insert)
qed

lemma foldl_best_step:
  "foldl best_step None es = (if es = [] then None else Some (Min (RatingEntry.rank ` set es)))"
  by (cases es) (simp_all add: best_step_def foldl_best_step_Some)

lemma foldl_delta:
  "foldl (\<lambda>s e. s + (newRating e - oldRating e)) a es
     = a + (\<Sum>e\<leftarrow>es. newRating e - oldRating e)"
  by (induction es arbitrary: a) simp_all

lemma Math_round_nearest: "\<bar>of_int (Math_round x) - x\<bar> \<le> 1 / 2"
  unfolding Math_round_def by linarith

lemma Math_round_frac:
  assumes "0 < b"
  shows "Math_round (of_int a / of_int b) = (2 * a + b) div (2 * b)"
proof -
  have "(of_int a / of_int b + 1 / 2 :: rat) = of_int (2 * a + b) / of_int (2 * b)"
    using assms by (simp add: field_simps)
  then show ?thesis
    unfolding Math_round_def by (simp only: floor_divide_of_int_eq)
qed

lemma avgDelta_exact:
  assumes "es \<noteq> []" and "\<bar>\<Sum>e\<leftarrow>es. newRating e - oldRating e\<bar> < 2 ^ 52"
  shows "avgDelta (summary (fetchRatingHistory es)) = Some (Math_round (mean_delta es))"
proof -
  have n: "0 < int (length es)" using assms(1) by simp
  have "Math_round (fl (of_int (\<Sum>e\<leftarrow>es. newRating e - oldRating e) / of_int (int (length es))))
          = Math_round (of_int (\<Sum>e\<leftarrow>es. newRating e - oldRating e) / of_int (int (length es)))"
    by (rule Math_round_fl_div [OF n assms(2)])
  then show ?thesis
    using assms(1) by (simp add: fetchRatingHistory_def Let_def foldl_delta mean_delta_def)
qed

lemma example_entries_sum: "(\<Sum>e\<leftarrow>example_entries. newRating e - oldRating e) = 25"
  by (simp add: example_entries_def)

text \<open>
  C7. The rating summary counts the entries, takes the least rank as \<open>bestRank\<close> and the
  mean rating change, rounded to the nearest integer, as \<open>avgDelta\<close>; both are null for
  the empty list. The rating changes sum to less than \<open>2^52\<close> in magnitude, as every sum of
  ratings does, so that the quotient computed in binary64 rounds as the exact mean does.
  Ranks 12, 3, 50 with changes +20, -5, +10 give \<open>bestRank = 3\<close> and \<open>avgDelta = 8\<close>.
\<close>

theorem rating_summary_correct:
  assumes "\<bar>\<Sum>e\<leftarrow>es. newRating e - oldRating e\<bar> < 2 ^ 52"
  shows "rating_summary.total (summary (fetchRatingHistory es)) = length es
    \<and> bestRank (summary (fetchRatingHistory es))
        = (if es = [] then None else Some (Min (RatingEntry.rank ` set es)))
    \<and> avgDelta (summary (fetchRatingHistory es))
        = (if es = [] then None else Some (Math_round (mean_delta es)))
    \<and> \<bar>of_int (Math_round (mean_delta es)) - mean_delta es\<bar> \<le> 1 / 2
    \<and> summary (fetchRatingHistory example_entries)
        = \<lparr>rating_summary.total = 3, bestRank = Some 3, avgDelta = Some 8\<rparr>"
proof -
  have t: "rating_summary.total (summary (fetchRatingHistory es)) = length es"
    by (simp add: fetchRatingHistory_def Let_def)
  have b: "bestRank (summary (fetchRatingHistory es))
             = (if es = [] then None else Some (Min (RatingEntry.rank ` set es)))"
    by (simp add: fetchRatingHistory_def Let_def foldl_best_step)
  have a: "avgDelta (summary (fetchRatingHistory es))
             = (if es = [] then None else Some (Math_round (mean_delta es)))"
  proof (cases "es = []")
    case True
    then show ?thesis by (simp add: fetchRatingHistory_def)
  next
    case False
    then show ?thesis using avgDelta_exact [OF False assms] by simp
  qed
  have ne: "example_entries \<noteq> []" by (simp add: example_entries_def)
  have "length example_entries = 3" by (simp add: example_entries_def)
  then have "mean_delta example_entries = of_int 25 / of_int 3"
    by (simp add: mean_delta_def example_entries_sum)
  then have "Math_round (mean_delta example_entries) = 8"
    by (simp only: Math_round_frac) simp
  then have ea: "avgDelta (summary (fetchRatingHistory example_entries)) = Some 8"
    using avgDelta_exact [OF ne] by (simp add: example_entries_sum)
  have eb: "bestRank (summary (fetchRatingHistory example_entries)) = Some 3"
    by (simp add: fetchRatingHistory_def Let_def best_step_def example_entries_def)
  have et: "rating_summary.total (summary (fetchRatingHistory example_entries)) = 3"
    by (simp add: fetchRatingHistory_def Let_def example_entries_def)
  have e: "summary (fetchRatingHistory example_entries)
             = \<lparr>rating_summary.total = 3, bestRank = Some 3, avgDelta = Some 8\<rparr>"
    using ea eb et by (cases "summary (fetchRatingHistory example_entries)") simp
  show ?thesis
    using t b a Math_round_nearest [of "mean_delta es"] e by blast
qed

theorem rating_summary_correct_witness:
  "\<bar>\<Sum>e\<leftarrow>example_entries. newRating e - oldRating e\<bar> < 2 ^ 52
   \<and> rating_summary.total (summary (fetchRatingHistory example_entries)) = 3
   \<and> bestRank (summary (fetchRatingHistory example_entries)) = Some 3
   \<and> avgDelta (summary (fetchRatingHistory example_entries)) = Some 8"
proof -
  have h: "\<bar>\<Sum>e\<leftarrow>example_entries. newRating e - oldRating e\<bar> < 2 ^ 52"
    by (simp add: example_entries_sum)
  show ?thesis
    using h rating_summary_correct [OF h] by simp
qed

section \<open>Empty input\<close>

text \<open>
  C9. For the empty submission list the submission overview is
  \<open>{total: 0, accepted: 0, verdictCounts: {}, languages: {}}\<close> and the difficulty histogram
  is \<open>{totalSolved: 0, highestSolvedRating: null, buckets: all five zero}\<close>; neither
  computation has a failing branch.
\<close>

theorem empty_submissions_zero:
  "fetchSubmissionOverview []
     = \<lparr>SubmissionStats.total = 0, verdictCounts = [], languages = [], accepted = 0\<rparr>
   \<and> fetchProblemDifficulty []
     = \<lparr>totalSolved = 0, highestSolvedRating = None,
        buckets = \<lparr>lt1100 = 0, b1100_1399 = 0, b1400_1699 = 0, b1700_1999 = 0, ge2000 = 0\<rparr>\<rparr>"
  by (simp add: fetchSubmissionOverview_def fetchProblemDifficulty_def no_buckets_def)

section \<open>Difficulty histogram\<close>

lemma accepted_800_key: "problem_key (problem (accepted_800 t)) = ''1-A''"
  by (simp add: problem_key_def accepted_800_def template_int_def string_of_int_def
      string_of_nat.simps digit_char_def)

lemma mark_solved_keeps: "m k = Some True \<Longrightarrow> fold mark_solved subs m k = Some True"
  by (induction subs arbitrary: m) (auto simp add: mark_solved_def)

lemma mark_solved_marks:
  "s \<in> set subs \<Longrightarrow> verdict s = Some ''OK'' \<Longrightarrow>
   fold mark_solved subs m (problem_key (problem s)) = Some True"
proof (induction subs arbitrary: m)
  case Nil
  then show ?case by simp
next
  case (Cons a subs)
  show ?case
  proof (cases "s = a")
    case True
    then have "mark_solved a m (problem_key (problem s)) = Some True"
      using Cons.prems(2) by (simp add: mark_solved_def)
    then have "fold mark_solved subs (mark_solved a m) (problem_key (problem s)) = Some True"
      by (rule mark_solved_keeps)
    then show ?thesis by simp
  next
    case False
    then show ?thesis using Cons by simp
  qed
qed

lemma count_solved_total:
  assumes "\<And>s. s \<in> set subs \<Longrightarrow> verdict s = Some ''OK'' \<Longrightarrow>
            solved (problem_key (problem s)) = Some True"
  shows "totalSolved (fold (count_solved solved) subs d)
           = totalSolved d + length (filter (\<lambda>s. verdict s = Some ''OK'') subs)"
  using assms
proof (induction subs arbitrary: d)
  case Nil
  show ?case by simp
next
  case (Cons a subs)
  have step: "totalSolved (count_solved solved a d)
                = totalSolved d + (if verdict a = Some ''OK'' then 1 else 0)"
    using Cons.prems [of a] by (simp add: count_solved_def Let_def split: option.splits)
  have "totalSolved (fold (count_solved solved) subs (count_solved solved a d))
          = totalSolved (count_solved solved a d)
              + length (filter (\<lambda>s. verdict s = Some ''OK'') subs)"
    by (rule Cons.IH) (simp add: Cons.prems)
  then show ?case using step by simp
qed

text \<open>
  What the histogram counts, for every submission list: the accepted submissions, not the
  problems that have one.
\<close>

lemma totalSolved_counts_accepted_submissions:
  "totalSolved (fetchProblemDifficulty subs)
     = length (filter (\<lambda>s. verdict s = Some ''OK'') subs)"
  unfolding fetchProblemDifficulty_def Let_def
  by (subst count_solved_total) (simp_all add: mark_solved_marks)

text \<open>
  C1. Two accepted submissions to the same problem (contest 1, index A, rating 800) are
  both counted: \<open>totalSolved\<close> is 2 and the bucket below 1100 holds 2, where a problem
  counted once would give 1 and 1. The second loop tests only that the key is marked
  solved and that the submission is accepted, which holds for every accepted submission.
\<close>

theorem difficulty_counts_every_accepted_submission:
  "fetchProblemDifficulty [accepted_800 1700000000, accepted_800 1700000600]
     = \<lparr>totalSolved = 2, highestSolvedRating = Some 800,
        buckets = \<lparr>lt1100 = 2, b1100_1399 = 0, b1400_1699 = 0, b1700_1999 = 0, ge2000 = 0\<rparr>\<rparr>"
proof -
  have v: "verdict (accepted_800 t) = Some ''OK''" for t
    by (simp add: accepted_800_def)
  have r: "problem.rating (problem (accepted_800 t)) = Some 800" for t
    by (simp add: accepted_800_def)
  show ?thesis
    by (simp add: fetchProblemDifficulty_def mark_solved_def count_solved_def accepted_800_key
        v r bucket_rating_def no_buckets_def)
qed

section \<open>Upcoming contests\<close>

lemma upcoming_contests_kept:
  "length (fetchUpcomingContests now list) \<le> 20
   \<and> (\<forall>e\<in>set (fetchUpcomingContests now list).
         \<exists>c\<in>set list. e = to_entry c \<and> phase c = ''BEFORE'' \<and> now < contest.startTimeSeconds c)"
proof -
  have "set (take 20 (filter (\<lambda>c. phase c = ''BEFORE'' \<and> contest.startTimeSeconds c > now) list))
          \<subseteq> set (filter (\<lambda>c. phase c = ''BEFORE'' \<and> contest.startTimeSeconds c > now) list)"
    by (rule set_take_subset)
  then show ?thesis
    by (auto simp add: fetchUpcomingContests_def)
qed

text \<open>
  C2. For contests with phases BEFORE, FINISHED, BEFORE and start times \<open>now + 100\<close>,
  \<open>now - 100\<close>, \<open>now + 50\<close> the operation returns the two upcoming contests in the order
  of the upstream list, \<open>now + 100\<close> before \<open>now + 50\<close>: it filters and truncates, and does
  not sort.
\<close>

theorem upcoming_contests_in_upstream_order:
  "map ContestEntry.startTimeSeconds
     (fetchUpcomingContests 1700000000 (example_contests 1700000000))
     = [1700000100, 1700000050]
   \<and> \<not> sorted (map ContestEntry.startTimeSeconds
          (fetchUpcomingContests 1700000000 (example_contests 1700000000)))"
  by (simp add: fetchUpcomingContests_def example_contests_def to_entry_def)

section \<open>Typed client\<close>

text \<open>
  C8, as the claim states it, fails for an envelope that reports a failure with an empty
  comment: the error then carries the fixed message \<open>CF API failed\<close>, not the comment.
\<close>

theorem cf_empty_comment_counterexample:
  "cf (Inr \<lparr>Response.status = 200,
            body = Inr \<lparr>envelope.status = Some ''FAILED'', comment = Some '''', result = ()\<rparr>\<rparr>)
     = Inl (Error ''CF API failed'')
   \<and> cf (Inr \<lparr>Response.status = 200,
            body = Inr \<lparr>envelope.status = Some ''FAILED'', comment = Some '''', result = ()\<rparr>\<rparr>)
     \<noteq> Inl (Error '''')"
  by (simp add: cf_def ok_def truthy_or_def)

text \<open>
  C8, amended. On a status outside 200 to 299 the client fails with \<open>CF error: status\<close>,
  whatever the body holds. On a 2xx response whose body parses, it returns the envelope's
  result when the envelope's status is \<open>OK\<close>; otherwise it fails with the envelope's
  comment when that is a non-empty string, and with \<open>CF API failed\<close> when the comment is
  missing or empty. It returns a result in no other case.
\<close>

theorem cf_outcome:
  "(\<not> ok res \<longrightarrow>
      cf (Inr res) = Inl (Error (''CF error: '' @ string_of_int (Response.status res))))
   \<and> (ok res \<and> body res = Inr j \<and> envelope.status j = Some ''OK'' \<longrightarrow>
      cf (Inr res) = Inr (result j))
   \<and> (ok res \<and> body res = Inr j \<and> envelope.status j \<noteq> Some ''OK''
        \<and> comment j = Some c \<and> c \<noteq> [] \<longrightarrow>
      cf (Inr res) = Inl (Error c))
   \<and> (ok res \<and> body res = Inr j \<and> envelope.status j \<noteq> Some ''OK''
        \<and> (comment j = None \<or> comment j = Some []) \<longrightarrow>
      cf (Inr res) = Inl (Error ''CF API failed''))
   \<and> (cf fetched = Inr r \<longrightarrow>
      (\<exists>res' j'. fetched = Inr res' \<and> ok res' \<and> body res' = Inr j'
         \<and> envelope.status j' = Some ''OK'' \<and> r = result j'))"
proof -
  have 1: "\<not> ok res \<longrightarrow>
      cf (Inr res) = Inl (Error (''CF error: '' @ string_of_int (Response.status res)))"
    by (simp add: cf_def)
  have 2: "ok res \<and> body res = Inr j \<and> envelope.status j = Some ''OK'' \<longrightarrow>
      cf (Inr res) = Inr (result j)"
    by (simp add: cf_def)
  have 3: "ok res \<and> body res = Inr j \<and> envelope.status j \<noteq> Some ''OK''
        \<and> comment j = Some c \<and> c \<noteq> [] \<longrightarrow> cf (Inr res) = Inl (Error c)"
    by (simp add: cf_def truthy_or_def)
  have 4: "ok res \<and> body res = Inr j \<and> envelope.status j \<noteq> Some ''OK''
        \<and> (comment j = None \<or> comment j = Some []) \<longrightarrow>
      cf (Inr res) = Inl (Error ''CF API failed'')"
    by (auto simp add: cf_def truthy_or_def)
  have 5: "cf fetched = Inr r \<longrightarrow>
      (\<exists>res' j'. fetched = Inr res' \<and> ok res' \<and> body res' = Inr j'
         \<and> envelope.status j' = Some ''OK'' \<and> r = result j')"
    by (auto simp add: cf_def split: sum.splits if_splits)
  show ?thesis using 1 2 3 4 5 by blast
qed

theorem cf_outcome_witness:
  "cf (Inr \<lparr>Response.status = 404,
            body = Inr \<lparr>envelope.status = Some ''OK'', comment = None, result = (7::int)\<rparr>\<rparr>)
     = Inl (Error ''CF error: 404'')
   \<and> cf (Inr \<lparr>Response.status = 200,
            body = Inr \<lparr>envelope.status = Some ''OK'', comment = None, result = (7::int)\<rparr>\<rparr>)
     = Inr 7
   \<and> cf (Inr \<lparr>Response.status = 200,
            body = Inr \<lparr>envelope.status = Some ''FAILED'',
                         comment = Some ''handle: not found'', result = (7::int)\<rparr>\<rparr>)
     = Inl (Error ''handle: not found'')
   \<and> cf (Inr \<lparr>Response.status = 200,
            body = Inr \<lparr>envelope.status = Some ''FAILED'', comment = None, result = (7::int)\<rparr>\<rparr>)
     = Inl (Error ''CF API failed'')
   \<and> (\<exists>res j. Inr \<lparr>Response.status = 200,
            body = Inr \<lparr>envelope.status = Some ''OK'', comment = None, result = (7::int)\<rparr>\<rparr>
          = (Inr res :: error + (error + int envelope) Response)
        \<and> ok res \<and> body res = Inr j \<and> envelope.status j = Some ''OK'' \<and> 7 = result j)"
proof -
  let ?ok = "\<lparr>envelope.status = Some ''OK'', comment = None, result = (7::int)\<rparr>"
  let ?failed = "\<lparr>envelope.status = Some ''FAILED'', comment = Some ''handle: not found'',
                   result = (7::int)\<rparr>"
  let ?bare = "\<lparr>envelope.status = Some ''FAILED'', comment = None, result = (7::int)\<rparr>"
  have s: "string_of_int 404 = ''404''"
    by (simp add: string_of_int_def string_of_nat.simps digit_char_def)
  have a: "cf (Inr \<lparr>Response.status = 404, body = Inr ?ok\<rparr>) = Inl (Error ''CF error: 404'')"
    using cf_outcome [where res = "\<lparr>Response.status = 404, body = Inr ?ok\<rparr>" and j = ?ok
        and c = "[]" and fetched = "Inl (Error [])" and r = "7::int"] s
    by (simp add: ok_def)
  have b: "cf (Inr \<lparr>Response.status = 200, body = Inr ?ok\<rparr>) = Inr 7"
    using cf_outcome [where res = "\<lparr>Response.status = 200, body = Inr ?ok\<rparr>" and j = ?ok
        and c = "[]" and fetched = "Inl (Error [])" and r = "7::int"]
    by (simp add: ok_def)
  have c: "cf (Inr \<lparr>Response.status = 200, body = Inr ?failed\<rparr>) = Inl (Error ''handle: not found'')"
    using cf_outcome [where res = "\<lparr>Response.status = 200, body = Inr ?failed\<rparr>"
        and j = ?failed and c = "''handle: not found''" and fetched = "Inl (Error [])" and r = "7::int"]
    by (simp add: ok_def)
  have d: "cf (Inr \<lparr>Response.status = 200, body = Inr ?bare\<rparr>) = Inl (Error ''CF API failed'')"
    using cf_outcome [where res = "\<lparr>Response.status = 200, body = Inr ?bare\<rparr>" and j = ?bare
        and c = "[]" and fetched = "Inl (Error [])" and r = "7::int"]
    by (simp add: ok_def)
  have e: "\<exists>res j. Inr \<lparr>Response.status = 200, body = Inr ?ok\<rparr>
          = (Inr res :: error + (error + int envelope) Response)
        \<and> ok res \<and> body res = Inr j \<and> envelope.status j = Some ''OK'' \<and> 7 = result j"
    using cf_outcome [where res = "\<lparr>Response.status = 200, body = Inr ?ok\<rparr>" and j = ?ok
        and c = "[]" and fetched = "Inr \<lparr>Response.status = 200, body = Inr ?ok\<rparr>"
        and r = "7::int"] b
    by blast
  show ?thesis using a b c d e by simp
qed

section \<open>Rate-limited gateway\<close>

lemma signCfRequest_Inr:
  assumes "CF_KEY env = Some k" "k \<noteq> []" "CF_SECRET env = Some s" "s \<noteq> []"
  shows "\<exists>u. signCfRequest env m ps = Inr u"
  using assms by (simp add: signCfRequest_def Let_def)

text \<open>
  C4, as the claim states it, fails when signing fails: with no API secret configured the
  handler answers 500 and the last-call timestamp keeps its old value 1000, although the
  handler started at 5000.
\<close>

theorem gateway_failed_call_counterexample:
  "lastCallTs (GET (example_gateway (example_signer\<lparr>CF_SECRET := None\<rparr>)) example_request 1000)
     = 1000
   \<and> Date_now_entry (example_gateway (example_signer\<lparr>CF_SECRET := None\<rparr>)) = 5000
   \<and> Response.status
       (response (GET (example_gateway (example_signer\<lparr>CF_SECRET := None\<rparr>)) example_request 1000))
     = 500"
  by (simp add: GET_def searchParams_get_def example_request_def example_gateway_def
      example_signer_def signCfRequest_def Let_def)

text \<open>
  C4, amended. For a request that names a method: when signing succeeds and the upstream
  fetch gives a response, of whatever HTTP status, that response is passed on and the
  last-call timestamp becomes the time read after the fetch; when signing fails or the
  fetch throws, the handler answers 500 with the error's message and the timestamp keeps
  the value it had.
\<close>

theorem gateway_timestamp:
  assumes "searchParams_get ''method'' (searchParams req) = Some m" and "m \<noteq> []"
  shows "(signCfRequest (signer env) m (forward_params req) = Inr s
            \<and> fetch env (url s) = Inr cfRes \<longrightarrow>
          lastCallTs (GET env req ts) = Date_now_fetched env
            \<and> response (GET env req ts) = cfRes)
    \<and> (signCfRequest (signer env) m (forward_params req) = Inl e \<longrightarrow>
          lastCallTs (GET env req ts) = ts
            \<and> response (GET env req ts)
                = \<lparr>Response.status = 500, body = Json_error (message e)\<rparr>)
    \<and> (signCfRequest (signer env) m (forward_params req) = Inr s
            \<and> fetch env (url s) = Inl e \<longrightarrow>
          lastCallTs (GET env req ts) = ts
            \<and> response (GET env req ts)
                = \<lparr>Response.status = 500, body = Json_error (message e)\<rparr>)"
  using assms by (simp add: GET_def Let_def)

theorem gateway_timestamp_witness:
  "lastCallTs (GET (example_gateway example_signer) example_request 1000) = 5300
   \<and> response (GET (example_gateway example_signer) example_request 1000)
       = \<lparr>Response.status = 200, body = Upstream_body ''{}''\<rparr>
   \<and> lastCallTs (GET (example_gateway (example_signer\<lparr>CF_KEY := None\<rparr>)) example_request 1000)
       = 1000
   \<and> response (GET (example_gateway (example_signer\<lparr>CF_KEY := None\<rparr>)) example_request 1000)
       = \<lparr>Response.status = 500, body = Json_error ''Missing CF_KEY/CF_SECRET''\<rparr>
   \<and> lastCallTs (GET ((example_gateway example_signer)
          \<lparr>fetch := \<lambda>u. Inl (TypeError ''fetch failed'')\<rparr>) example_request 1000)
       = 1000
   \<and> response (GET ((example_gateway example_signer)
          \<lparr>fetch := \<lambda>u. Inl (TypeError ''fetch failed'')\<rparr>) example_request 1000)
       = \<lparr>Response.status = 500, body = Json_error ''fetch failed''\<rparr>"
proof -
  let ?down = "(example_gateway example_signer)\<lparr>fetch := \<lambda>u. Inl (TypeError ''fetch failed'')\<rparr>"
  have m: "searchParams_get ''method'' (searchParams example_request) = Some ''user.info''"
    by (simp add: searchParams_get_def example_request_def)
  have ne: "''user.info'' \<noteq> []" by simp
  obtain u where u: "signCfRequest (signer (example_gateway example_signer)) ''user.info''
      (forward_params example_request) = Inr u"
    using signCfRequest_Inr [of example_signer "''key''" "''secret''"]
    by (auto simp add: example_gateway_def example_signer_def)
  have f: "fetch (example_gateway example_signer) (url u)
      = Inr \<lparr>Response.status = 200, body = Upstream_body ''{}''\<rparr>"
    by (simp add: example_gateway_def)
  have bad: "signCfRequest (signer (example_gateway (example_signer\<lparr>CF_KEY := None\<rparr>))) ''user.info''
      (forward_params example_request) = Inl (Error ''Missing CF_KEY/CF_SECRET'')"
    by (simp add: example_gateway_def example_signer_def signCfRequest_def)
  have a: "lastCallTs (GET (example_gateway example_signer) example_request 1000) = 5300
      \<and> response (GET (example_gateway example_signer) example_request 1000)
           = \<lparr>Response.status = 200, body = Upstream_body ''{}''\<rparr>"
    using gateway_timestamp [OF m ne, where env = "example_gateway example_signer" and s = u
        and cfRes = "\<lparr>Response.status = 200, body = Upstream_body ''{}''\<rparr>" and ts = 1000] u f
    by (simp add: example_gateway_def)
  have b: "lastCallTs (GET (example_gateway (example_signer\<lparr>CF_KEY := None\<rparr>)) example_request 1000)
       = 1000
     \<and> response (GET (example_gateway (example_signer\<lparr>CF_KEY := None\<rparr>)) example_request 1000)
       = \<lparr>Response.status = 500, body = Json_error ''Missing CF_KEY/CF_SECRET''\<rparr>"
    using gateway_timestamp [OF m ne, where env = "example_gateway (example_signer\<lparr>CF_KEY := None\<rparr>)"
        and e = "Error ''Missing CF_KEY/CF_SECRET''" and ts = 1000] bad
    by simp
  have u': "signCfRequest (signer ?down) ''user.info'' (forward_params example_request) = Inr u"
    using u by (simp add: example_gateway_def)
  have f': "fetch ?down (url u) = Inl (TypeError ''fetch failed'')"
    by simp
  have c: "lastCallTs (GET ?down example_request 1000) = 1000
     \<and> response (GET ?down example_request 1000)
       = \<lparr>Response.status = 500, body = Json_error ''fetch failed''\<rparr>"
    using gateway_timestamp [OF m ne, where env = ?down and s = u
        and e = "TypeError ''fetch failed''" and ts = 1000] u' f'
    by simp
  show ?thesis using a b c by simp
qed

section \<open>Request signer\<close>

subsection \<open>Objects as entry lists\<close>



lemma map_of_obj_set: "map_of (obj_set k v xs) = (map_of xs)(k \<mapsto> v)"
  by (induction xs) (auto simp add: fun_eq_iff)








subsection \<open>The comparator and the sort\<close>

lemma code_unit_compare_linear: "linear_compare code_unit_compare"
  unfolding linear_compare_def code_unit_compare_def by auto

lemma linear_compare_total:
  assumes "linear_compare lc"
  shows "lc x y \<le> 0 \<or> lc y x \<le> 0"
proof (cases "lc x y \<le> 0")
  case True
  then show ?thesis by simp
next
  case False
  then have "0 < lc x y" by simp
  then have "lc y x < 0" using assms unfolding linear_compare_def by blast
  then show ?thesis by simp
qed

lemma linear_compare_antisym:
  assumes "linear_compare lc" "lc x y \<le> 0" "lc y x \<le> 0"
  shows "x = y"
proof -
  have "\<not> lc x y < 0"
  proof
    assume "lc x y < 0"
    then have "0 < lc y x" using assms(1) unfolding linear_compare_def by blast
    then show False using assms(3) by simp
  qed
  then have "lc x y = 0" using assms(2) by simp
  then show ?thesis using assms(1) unfolding linear_compare_def by blast
qed

lemma linear_compare_trans:
  assumes "linear_compare lc" "lc x y \<le> 0" "lc y z \<le> 0"
  shows "lc x z \<le> 0"
  using assms unfolding linear_compare_def by blast

lemma compare_entries_total:
  assumes "linear_compare lc"
  shows "compare_entries lc a b \<le> 0 \<or> compare_entries lc b a \<le> 0"
proof -
  obtain ak av bk bv where ab: "a = (ak, av)" "b = (bk, bv)" by (cases a; cases b) auto
  show ?thesis
    using linear_compare_total [OF assms, of av bv] linear_compare_total [OF assms, of ak bk]
    by (auto simp add: ab compare_entries_def)
qed


lemma compare_entries_trans:
  assumes "linear_compare lc" "compare_entries lc a b \<le> 0" "compare_entries lc b d \<le> 0"
  shows "compare_entries lc a d \<le> 0"
proof -
  have tr: "lc x z \<le> 0" if "lc x y \<le> 0" "lc y z \<le> 0" for x y z
    using that by (rule linear_compare_trans [OF assms(1)])
  have anti: "x = y" if "lc x y \<le> 0" "lc y x \<le> 0" for x y
    using that by (rule linear_compare_antisym [OF assms(1)])
  obtain ak av bk bv dk dv where abd: "a = (ak, av)" "b = (bk, bv)" "d = (dk, dv)"
    by (cases a; cases b; cases d) auto
  show ?thesis
  proof (cases "ak = dk")
    case True
    show ?thesis
    proof (cases "ak = bk")
      case True
      then show ?thesis
        using assms(2,3) \<open>ak = dk\<close> tr [of av bv dv] by (simp add: abd compare_entries_def)
    next
      case False
      then have "lc ak bk \<le> 0" "lc bk ak \<le> 0"
        using assms(2,3) \<open>ak = dk\<close> by (auto simp add: abd compare_entries_def)
      then have "ak = bk" by (rule anti)
      with False show ?thesis by simp
    qed
  next
    case False
    have "lc ak dk \<le> 0"
    proof (cases "ak = bk")
      case True
      then show ?thesis using assms(3) False by (auto simp add: abd compare_entries_def)
    next
      case ab: False
      show ?thesis
      proof (cases "bk = dk")
        case True
        then show ?thesis using assms(2) ab by (auto simp add: abd compare_entries_def)
      next
        case bd: False
        then show ?thesis
          using assms(2,3) ab tr [of ak bk dk] by (auto simp add: abd compare_entries_def)
      qed
    qed
    then show ?thesis using False by (simp add: abd compare_entries_def)
  qed
qed

lemma mset_insert_by: "mset (insert_by c x xs) = add_mset x (mset xs)"
  by (induction xs) auto

lemma mset_sort_by: "mset (sort_by c xs) = mset xs"
  unfolding sort_by_def by (induction xs) (auto simp add: mset_insert_by)

lemma set_insert_by: "set (insert_by c x xs) = insert x (set xs)"
  by (induction xs) auto

lemma sorted_insert_by:
  assumes total: "\<And>a b. c a b \<le> 0 \<or> c b a \<le> 0"
    and trans: "\<And>a b d. c a b \<le> 0 \<Longrightarrow> c b d \<le> 0 \<Longrightarrow> c a d \<le> 0"
    and "sorted_wrt (\<lambda>a b. c a b \<le> 0) xs"
  shows "sorted_wrt (\<lambda>a b. c a b \<le> 0) (insert_by c x xs)"
  using assms(3)
proof (induction xs)
  case Nil
  show ?case by simp
next
  case (Cons y ys)
  show ?case
  proof (cases "c x y \<le> 0")
    case True
    then have "\<forall>z\<in>set ys. c x z \<le> 0" using Cons.prems trans by auto
    then show ?thesis using True Cons.prems by simp
  next
    case False
    then have "c y x \<le> 0" using total [of x y] by simp
    then show ?thesis using False Cons by (auto simp add: set_insert_by)
  qed
qed

lemma sorted_sort_by:
  assumes "\<And>a b. c a b \<le> 0 \<or> c b a \<le> 0"
    and "\<And>a b d. c a b \<le> 0 \<Longrightarrow> c b d \<le> 0 \<Longrightarrow> c a d \<le> 0"
  shows "sorted_wrt (\<lambda>a b. c a b \<le> 0) (sort_by c xs)"
  unfolding sort_by_def
  by (induction xs) (simp_all add: sorted_insert_by [OF assms])



lemma baseParams_injected:
  "(''apiKey'', key) \<in> set (baseParams env key ps)
   \<and> (''time'', string_of_int (Date_now env div 1000)) \<in> set (baseParams env key ps)"
proof -
  have "map_of (baseParams env key ps) ''apiKey'' = Some key"
    by (simp add: baseParams_def map_of_obj_set)
  moreover have "map_of (baseParams env key ps) ''time'' = Some (string_of_int (Date_now env div 1000))"
    by (simp add: baseParams_def map_of_obj_set)
  ultimately show ?thesis by (simp add: map_of_SomeD)
qed

lemma signCfRequest_url:
  assumes "CF_KEY env = Some apiKey" "apiKey \<noteq> []" "CF_SECRET env = Some apiSecret" "apiSecret \<noteq> []"
  shows "signCfRequest env methodName params =
     Inr \<lparr>url = ''https://codeforces.com/api/'' @ methodName @ ''?''
            @ join ''&'' (map (\<lambda>(k, v). k @ ''='' @ encodeURIComponent env v)
                (sorted_params env apiKey params))
            @ ''&apiSig='' @ randomBytes_hex env
            @ sha512_hex env
                (randomBytes_hex env @ ''/'' @ methodName @ ''?''
                  @ join ''&'' (map (\<lambda>(k, v). k @ ''='' @ v) (sorted_params env apiKey params))
                  @ ''#'' @ apiSecret)\<rparr>"
  using assms by (simp add: signCfRequest_def Let_def)

lemma example_time: "string_of_int (Date_now example_signer div 1000) = ''1700000000''"
  by (simp add: example_signer_def string_of_int_def string_of_nat.simps digit_char_def)

lemma example_baseParams:
  "baseParams example_signer ''key''
     [(''handle'', Str ''tourist''), (''from'', Num 1), (''count'', Undefined)]
   = [(''handle'', ''tourist''), (''from'', ''1''), (''apiKey'', ''key''), (''time'', ''1700000000'')]"
proof -
  have "string_of_int 1 = ''1''"
    by (simp add: string_of_int_def string_of_nat.simps digit_char_def)
  then show ?thesis
    by (simp add: baseParams_def fromEntries_def example_time)
qed

lemma example_baseParams_swapped:
  "baseParams example_signer ''key''
     [(''count'', Undefined), (''from'', Num 1), (''handle'', Str ''tourist'')]
   = [(''from'', ''1''), (''handle'', ''tourist''), (''apiKey'', ''key''), (''time'', ''1700000000'')]"
proof -
  have "string_of_int 1 = ''1''"
    by (simp add: string_of_int_def string_of_nat.simps digit_char_def)
  then show ?thesis
    by (simp add: baseParams_def fromEntries_def example_time)
qed

lemma example_localeCompare: "localeCompare example_signer = code_unit_compare"
  by (simp add: example_signer_def)

lemma example_sorted_params:
  "sorted_params example_signer ''key''
     [(''handle'', Str ''tourist''), (''from'', Num 1), (''count'', Undefined)]
   = [(''apiKey'', ''key''), (''from'', ''1''), (''handle'', ''tourist''), (''time'', ''1700000000'')]"
  unfolding sorted_params_def example_baseParams example_localeCompare
  by (simp add: sort_by_def compare_entries_def code_unit_compare_def)

lemma example_sorted_params_swapped:
  "sorted_params example_signer ''key''
     [(''count'', Undefined), (''from'', Num 1), (''handle'', Str ''tourist'')]
   = [(''apiKey'', ''key''), (''from'', ''1''), (''handle'', ''tourist''), (''time'', ''1700000000'')]"
  unfolding sorted_params_def example_baseParams_swapped example_localeCompare
  by (simp add: sort_by_def compare_entries_def code_unit_compare_def)

text \<open>
  C5. With both credentials present, the signer returns the URL
  \<open>https://codeforces.com/api/{method}?{query}&apiSig={nonce}{digest}\<close>, where the query
  joins \<open>k=encode(v)\<close> over the sorted pairs with \<open>&\<close>, and the digest is the SHA-512 hex
  digest of \<open>{nonce}/{method}?{k=v over the same sorted pairs, unencoded, joined by &}#{secret}\<close>.
  The sorted pairs are the merged parameters (the caller's defined values as strings, the
  API key and the time in seconds), each once, in ascending order of the comparator on
  keys, then values; the same list, in the same order, feeds the query and the base string.
  The order is stated for a \<^verbatim>\<open>localeCompare\<close> that is a linear order.
\<close>

theorem signCfRequest_signature:
  assumes "CF_KEY env = Some apiKey" "apiKey \<noteq> []" "CF_SECRET env = Some apiSecret" "apiSecret \<noteq> []"
    and "linear_compare (localeCompare env)"
  shows "signCfRequest env methodName params =
     Inr \<lparr>url = ''https://codeforces.com/api/'' @ methodName @ ''?''
            @ join ''&'' (map (\<lambda>(k, v). k @ ''='' @ encodeURIComponent env v)
                (sorted_params env apiKey params))
            @ ''&apiSig='' @ randomBytes_hex env
            @ sha512_hex env
                (randomBytes_hex env @ ''/'' @ methodName @ ''?''
                  @ join ''&'' (map (\<lambda>(k, v). k @ ''='' @ v) (sorted_params env apiKey params))
                  @ ''#'' @ apiSecret)\<rparr>
    \<and> mset (sorted_params env apiKey params) = mset (baseParams env apiKey params)
    \<and> sorted_wrt (\<lambda>a b. compare_entries (localeCompare env) a b \<le> 0)
          (sorted_params env apiKey params)
    \<and> (''apiKey'', apiKey) \<in> set (sorted_params env apiKey params)
    \<and> (''time'', string_of_int (Date_now env div 1000)) \<in> set (sorted_params env apiKey params)"
proof -
  let ?c = "compare_entries (localeCompare env)"
  have m: "mset (sorted_params env apiKey params) = mset (baseParams env apiKey params)"
    by (simp add: sorted_params_def mset_sort_by)
  have s: "sorted_wrt (\<lambda>a b. ?c a b \<le> 0) (sorted_params env apiKey params)"
    unfolding sorted_params_def
  proof (rule sorted_sort_by)
    show "?c a b \<le> 0 \<or> ?c b a \<le> 0" for a b
      by (rule compare_entries_total [OF assms(5)])
    show "?c a b \<le> 0 \<Longrightarrow> ?c b d \<le> 0 \<Longrightarrow> ?c a d \<le> 0" for a b d
      by (rule compare_entries_trans [OF assms(5)])
  qed
  have "set (sorted_params env apiKey params) = set (baseParams env apiKey params)"
    using m by (rule mset_eq_setD)
  then have i: "(''apiKey'', apiKey) \<in> set (sorted_params env apiKey params)
      \<and> (''time'', string_of_int (Date_now env div 1000)) \<in> set (sorted_params env apiKey params)"
    using baseParams_injected [of apiKey env params] by simp
  show ?thesis
    using signCfRequest_url [OF assms(1-4), of methodName params] m s i by simp
qed

theorem signCfRequest_signature_witness:
  "signCfRequest example_signer ''user.status''
     [(''handle'', Str ''tourist''), (''from'', Num 1), (''count'', Undefined)]
   = Inr \<lparr>url = ''https://codeforces.com/api/user.status?apiKey=key&from=1&handle=tourist&time=1700000000&apiSig=a1b2c3sha512(a1b2c3/user.status?apiKey=key&from=1&handle=tourist&time=1700000000#secret)''\<rparr>"
proof -
  have k: "CF_KEY example_signer = Some ''key''" "''key'' \<noteq> []"
    and s: "CF_SECRET example_signer = Some ''secret''" "''secret'' \<noteq> []"
    by (simp_all add: example_signer_def)
  have l: "linear_compare (localeCompare example_signer)"
    by (simp add: example_localeCompare code_unit_compare_linear)
  have "signCfRequest example_signer ''user.status''
          [(''handle'', Str ''tourist''), (''from'', Num 1), (''count'', Undefined)]
        = Inr \<lparr>url = ''https://codeforces.com/api/'' @ ''user.status'' @ ''?''
            @ join ''&'' (map (\<lambda>(k, v). k @ ''='' @ encodeURIComponent example_signer v)
                [(''apiKey'', ''key''), (''from'', ''1''), (''handle'', ''tourist''),
                 (''time'', ''1700000000'')])
            @ ''&apiSig='' @ randomBytes_hex example_signer
            @ sha512_hex example_signer
                (randomBytes_hex example_signer @ ''/'' @ ''user.status'' @ ''?''
                  @ join ''&'' (map (\<lambda>(k, v). k @ ''='' @ v)
                      [(''apiKey'', ''key''), (''from'', ''1''), (''handle'', ''tourist''),
                       (''time'', ''1700000000'')])
                  @ ''#'' @ ''secret'')\<rparr>"
    using signCfRequest_signature [OF k s l, of "''user.status''"
        "[(''handle'', Str ''tourist''), (''from'', Num 1), (''count'', Undefined)]"]
    by (simp only: example_sorted_params)
  then show ?thesis by (simp add: example_signer_def)
qed



section \<open>Weekly activity and streaks\<close>

lemma week_9: "utc_isoWeekYear 1709035200 = 2024 \<and> utc_isoWeek 1709035200 = 9"
  by code_simp

lemma week_10: "utc_isoWeekYear 1709640000 = 2024 \<and> utc_isoWeek 1709640000 = 10"
  by code_simp

lemma week_11: "utc_isoWeekYear 1710244800 = 2024 \<and> utc_isoWeek 1710244800 = 11"
  by code_simp

lemma week_now: "utc_isoWeekYear 1709726400 = 2024 \<and> utc_isoWeek 1709726400 = 10"
  by code_simp

lemma week_now_11: "utc_isoWeekYear 1710331200 = 2024 \<and> utc_isoWeek 1710331200 = 11"
  by code_simp

lemma year_before_now: "fst (civil_from_days 19781) = 2024" "fst (civil_from_days 19788) = 2024"
  by code_simp+

lemma week_strings:
  "string_of_int 2024 = ''2024''" "string_of_int 9 = ''9''" "string_of_int 10 = ''10''"
  "string_of_int 11 = ''11''"
  by (simp_all add: string_of_int_def string_of_nat.simps digit_char_def)

lemma week_ago:
  "week_ago_format (dayjs_utc 1709726400) = ''2024-W''"
  "week_ago_format (dayjs_utc 1710331200) = ''2024-W''"
  by (simp_all add: dayjs_utc_def year_before_now pad4_def week_strings)

lemma first_of_month_weeks:
  "utc_isoWeek (days_from_civil 2024 9 1 * 86400) = 35"
  "utc_isoWeek (days_from_civil 2024 10 1 * 86400) = 40"
  "utc_isoWeek (days_from_civil 2024 11 1 * 86400) = 44"
  by code_simp+

lemma parsed_keys:
  "parsed_key_isoWeek ''2024-9'' = 35"
  "parsed_key_isoWeek ''2024-10'' = 40"
  "parsed_key_isoWeek ''2024-11'' = 44"
  by (simp_all add: parsed_key_isoWeek_def digits_value_def digit_value_def first_of_month_weeks)

lemma weeks_of_example:
  "map fst (fst (fold (activity_step (dayjs_utc 1709726400))
       [accepted_800 1709035200, accepted_800 1709640000] ([], [])))
     = [''2024-9'', ''2024-10'']"
  by (simp add: activity_step_def dayjs_utc_def accepted_800_def week_9 week_10 week_strings Let_def)

lemma weeks_of_example_11:
  "map fst (fst (fold (activity_step (dayjs_utc 1710331200))
       [accepted_800 1709640000, accepted_800 1710244800] ([], [])))
     = [''2024-10'', ''2024-11'']"
  by (simp add: activity_step_def dayjs_utc_def accepted_800_def week_10 week_11 week_strings Let_def)

text \<open>
  The same holds where the string order of the keys is the chronological one: for
  submissions in weeks 10 and 11 of 2024, with the present in week 11, the keys
  \<open>2024-10\<close> and \<open>2024-11\<close> are parsed to the weeks 40 and 44, which are not adjacent, and
  the streaks are 1 and 1.
\<close>

lemma streak_of_weeks_10_and_11:
  "streak (fetchActivity (dayjs_utc 1710331200)
       [accepted_800 1709640000, accepted_800 1710244800])
     = \<lparr>current = 1, longest = 1, activeWeeks = 2\<rparr>"
proof -
  obtain weekly days where f: "fold (activity_step (dayjs_utc 1710331200))
       [accepted_800 1709640000, accepted_800 1710244800] ([], []) = (weekly, days)"
    by (cases "fold (activity_step (dayjs_utc 1710331200))
       [accepted_800 1709640000, accepted_800 1710244800] ([], [])")
  have w: "map fst weekly = [''2024-10'', ''2024-11'']"
    using weeks_of_example_11 f by simp
  have s: "sort (map fst weekly) = [''2024-10'', ''2024-11'']"
    unfolding w by simp
  have n: "now_isoWeekYear (dayjs_utc 1710331200) = 2024" "now_isoWeek (dayjs_utc 1710331200) = 11"
    "parse_isoWeek (dayjs_utc 1710331200) = parsed_key_isoWeek"
    by (simp_all add: dayjs_utc_def week_now_11)
  have l: "length weekly = 2"
    using w by (metis length_map length_Cons list.size(3) numeral_2_eq_2)
  show ?thesis
    by (simp only: fetchActivity_def f prod.case)
       (simp add: s n l week_ago week_strings parsed_keys Let_def)
qed

text \<open>
  C3. Two accepted submissions, one in ISO week 9 of 2024 (27 February) and one in the
  next week, week 10 (5 March), with the present in week 10 (6 March). The week keys
  \<open>2024-9\<close> and \<open>2024-10\<close> are sorted as strings, so \<open>2024-10\<close> is processed first; the
  week numbers the loop compares are those of the keys parsed as year and month, 40 and
  then 35, so the streak never grows; and the most recent key in string order, \<open>2024-9\<close>,
  is neither the current week's key \<open>2024-10\<close> nor the text \<open>2024-W\<close> that stands for the
  previous week, so the current streak is set to zero. The result is a current streak of
  0 and a longest streak of 1 over 2 active weeks, where two adjacent active weeks ending
  in the current week make a current and a longest streak of 2.
\<close>

theorem streak_of_two_adjacent_weeks:
  "sort (map fst (weeks (fetchActivity (dayjs_utc 1709726400)
       [accepted_800 1709035200, accepted_800 1709640000])))
     = [''2024-10'', ''2024-9'']
   \<and> map (parse_isoWeek (dayjs_utc 1709726400)) [''2024-10'', ''2024-9''] = [40, 35]
   \<and> week_ago_format (dayjs_utc 1709726400) = ''2024-W''
   \<and> streak (fetchActivity (dayjs_utc 1709726400)
       [accepted_800 1709035200, accepted_800 1709640000])
     = \<lparr>current = 0, longest = 1, activeWeeks = 2\<rparr>"
proof -
  obtain weekly days where f: "fold (activity_step (dayjs_utc 1709726400))
       [accepted_800 1709035200, accepted_800 1709640000] ([], []) = (weekly, days)"
    by (cases "fold (activity_step (dayjs_utc 1709726400))
       [accepted_800 1709035200, accepted_800 1709640000] ([], [])")
  have w: "map fst weekly = [''2024-9'', ''2024-10'']"
    using weeks_of_example f by simp
  have s: "sort (map fst weekly) = [''2024-10'', ''2024-9'']"
    unfolding w by simp
  have n: "now_isoWeekYear (dayjs_utc 1709726400) = 2024" "now_isoWeek (dayjs_utc 1709726400) = 10"
    "parse_isoWeek (dayjs_utc 1709726400) = parsed_key_isoWeek"
    by (simp_all add: dayjs_utc_def week_now)
  have l: "length weekly = 2"
    using w by (metis length_map length_Cons list.size(3) numeral_2_eq_2)
  have a: "sort (map fst (weeks (fetchActivity (dayjs_utc 1709726400)
       [accepted_800 1709035200, accepted_800 1709640000]))) = [''2024-10'', ''2024-9'']"
    by (simp only: fetchActivity_def f prod.case)
       (simp add: s n l week_ago week_strings parsed_keys Let_def)
  have b: "streak (fetchActivity (dayjs_utc 1709726400)
       [accepted_800 1709035200, accepted_800 1709640000])
     = \<lparr>current = 0, longest = 1, activeWeeks = 2\<rparr>"
    by (simp only: fetchActivity_def f prod.case)
       (simp add: s n l week_ago week_strings parsed_keys Let_def)
  show ?thesis
    using a b by (simp add: n parsed_keys week_ago)
qed

section \<open>Profile\<close>

lemma fl_zero: "fl 0 = 0"
  by (simp add: fl_def)

lemma example_score:
  "Math_round (fl (fl (of_int 1500 * fl (9 / 10)) + fl (of_int 20 * fl (1 / 10)))) = 1352"
  by code_simp

lemma unrated_score:
  "Math_round (fl (of_int 15 * fl (1 / 10))) = 2"
  by code_simp

text \<open>
  The products and the sum are rounded to binary64, and a tie of the exact value need not
  be a tie of the computed one: for a rating of -198 and 7 friends the exact value is
  -177.5, which rounds to -177, and the computed score is -178.
\<close>

lemma customScore_negative_tie:
  "Math_round (fl (fl (of_int (- 198) * fl (9 / 10)) + fl (of_int 7 * fl (1 / 10)))) = - 178
   \<and> Math_round (of_int (- 198) * (9 / 10) + of_int 7 * (1 / 10)) = - 177"
  by code_simp

text \<open>
  C10. The profile of a user record has \<open>customScore = round(0.9 * rating + 0.1 *
  friendOfCount)\<close>, computed in binary64 as JavaScript does, with a missing rating or a
  missing friendOfCount taken as 0. The second signal is the field \<open>friendOfCount\<close>. For a
  user without rating, \<open>currentRating\<close> is null and the score is \<open>round(0.1 * friendOfCount)\<close>.
\<close>

theorem customScore_formula:
  "\<exists>p. fetchProfile (u # us) = Inr p
     \<and> customScore p
         = Math_round (fl (fl (of_int (case user.rating u of None \<Rightarrow> 0 | Some r \<Rightarrow> r) * fl (9 / 10))
             + fl (of_int (case friendOfCount u of None \<Rightarrow> 0 | Some f \<Rightarrow> f) * fl (1 / 10))))
     \<and> (user.rating u = None \<longrightarrow>
          currentRating p = None
          \<and> customScore p
              = Math_round (fl (of_int (case friendOfCount u of None \<Rightarrow> 0 | Some f \<Rightarrow> f) * fl (1 / 10))))"
proof -
  let ?f = "of_int (case friendOfCount u of None \<Rightarrow> 0 | Some f \<Rightarrow> f) * fl (1 / 10) :: rat"
  have "fl (fl (of_int 0 * fl (9 / 10)) + fl ?f) = fl ?f"
    by (simp add: fl_zero fl_fl)
  then show ?thesis
    by (simp add: fetchProfile_def computeCustomScore_def nullish_or_def Let_def)
qed

theorem customScore_formula_witness:
  "(\<exists>p. fetchProfile [example_user] = Inr p \<and> customScore p = 1352
        \<and> currentRating p = Some 1500)
   \<and> (\<exists>p. fetchProfile [example_user\<lparr>rating := None, friendOfCount := Some 15\<rparr>] = Inr p
        \<and> customScore p = 2 \<and> currentRating p = None)"
proof -
  have a: "\<exists>p. fetchProfile [example_user] = Inr p \<and> customScore p = 1352
        \<and> currentRating p = Some 1500"
    using customScore_formula [of example_user "[]"] example_score
    by (auto simp add: example_user_def fetchProfile_def)
  have b: "\<exists>p. fetchProfile [example_user\<lparr>rating := None, friendOfCount := Some 15\<rparr>] = Inr p
        \<and> customScore p = 2 \<and> currentRating p = None"
    using customScore_formula [of "example_user\<lparr>rating := None, friendOfCount := Some 15\<rparr>" "[]"]
      unrated_score
    by (auto simp add: example_user_def)
  show ?thesis using a b by simp
qed

end
